theory Spec2Isabelle
  imports Complex_Main "HOL-Library.Stream" "HOL-Library.AList"
begin

section \<open>The stochastic relaxation solver (p_kit/solver/csd_solver.py)\<close>

text \<open>
  Numbers are the reals: numpy's float64 values are read as the real numbers they stand
  for. Of the floating-point behaviour one part is kept, the underflow of \<^verbatim>\<open>np.exp\<close> to
  exactly 0.0, because it decides the range of the survival value; rounding otherwise,
  overflow to \<^verbatim>\<open>inf\<close> and \<^verbatim>\<open>nan\<close> are outside this model. Everything else of
  \<^verbatim>\<open>CaSuDaSolver.solve\<close> is kept: the order in which \<^verbatim>\<open>random()\<close> is called, the snapshot
  of \<^verbatim>\<open>m\<close> each comprehension reads, the index assignments into the preallocated
  histories, and the exceptions numpy and Python raise on ill-shaped \<^verbatim>\<open>J\<close> and \<^verbatim>\<open>h\<close>.
\<close>

datatype py_error = IndexError | ValueError

text \<open>The fields the base class \<^verbatim>\<open>Solver\<close> stores and \<^verbatim>\<open>solve\<close> reads.\<close>

record solver =
  slv_Nt :: nat
  slv_dt :: real
  slv_i0 :: real
  slv_expected_mean :: real

text \<open>
  What \<^verbatim>\<open>solve\<close> reads of its argument: \<^verbatim>\<open>c.n_pbits\<close>, the matrix \<^verbatim>\<open>c.J\<close> (a list of
  rows) and the one-dimensional vector \<^verbatim>\<open>c.h\<close>, as in \<^verbatim>\<open>examples/2_1_mux.py\<close>.
\<close>

record circuit =
  circ_n_pbits :: nat
  circ_J :: "real list list"
  circ_h :: "real list"

text \<open>
  The generator behind \<^verbatim>\<open>random.random()\<close> is the stream of the values it will return;
  one call returns the head and leaves the tail.
\<close>

type_synonym rng = "real stream"

definition random :: "rng \<Rightarrow> real \<times> rng" where
  "random g = (shd g, stl g)"

text \<open>\<^verbatim>\<open>np.sign\<close>: -1 below zero, 0 at zero, 1 above.\<close>

definition np_sign :: "real \<Rightarrow> real" where
  "np_sign x = (if x < 0 then - 1 else if x = 0 then 0 else 1)"

text \<open>\<^verbatim>\<open>xs[i]\<close> for a non-negative index: IndexError when out of range.\<close>

definition getitem :: "'a list \<Rightarrow> nat \<Rightarrow> py_error + 'a" where
  "getitem xs i = (if i < length xs then Inr (xs ! i) else Inl IndexError)"

text \<open>\<^verbatim>\<open>np.dot\<close> of two vectors: ValueError when the lengths differ.\<close>

definition np_dot :: "real list \<Rightarrow> real list \<Rightarrow> py_error + real" where
  "np_dot a b =
     (if length a \<noteq> length b then Inl ValueError
      else Inr (sum_list (map (\<lambda>(x, y). x * y) (zip a b))))"

text \<open>
  \<^verbatim>\<open>np.dot\<close> of a vector and a matrix: ValueError when the vector's length is not the
  number of rows; entry \<open>j\<close> of the result is the sum over the rows \<open>i\<close> of
  \<open>a[i] * M[i][j]\<close>. A numpy matrix is rectangular; its column count is read off the
  first row.
\<close>

definition ncols :: "real list list \<Rightarrow> nat" where
  "ncols M = (case M of [] \<Rightarrow> 0 | r # _ \<Rightarrow> length r)"

definition np_dot_vm :: "real list \<Rightarrow> real list list \<Rightarrow> py_error + real list" where
  "np_dot_vm a M =
     (if length a \<noteq> length M then Inl ValueError
      else Inr (map (\<lambda>j. sum_list (map (\<lambda>i. a ! i * M ! i ! j) [0..<length M]))
                    [0..<ncols M]))"

text \<open>A list comprehension whose element expression may raise: the first exception wins.\<close>

fun try_map :: "('a \<Rightarrow> py_error + 'b) \<Rightarrow> 'a list \<Rightarrow> py_error + 'b list" where
  "try_map f [] = Inr []"
| "try_map f (x # xs) =
     (case f x of
        Inl e \<Rightarrow> Inl e
      | Inr y \<Rightarrow> (case try_map f xs of Inl e \<Rightarrow> Inl e | Inr ys \<Rightarrow> Inr (y # ys)))"

text \<open>
  A list comprehension that calls \<^verbatim>\<open>random()\<close> once per element, in the order of the
  elements; the generator is threaded through.
\<close>

fun map_random :: "('a \<Rightarrow> real \<Rightarrow> 'b) \<Rightarrow> 'a list \<Rightarrow> rng \<Rightarrow> 'b list \<times> rng" where
  "map_random f [] g = ([], g)"
| "map_random f (i # is) g =
     (case random g of (u, g1) \<Rightarrow>
        (case map_random f is g1 of (ys, g2) \<Rightarrow> (f i u # ys, g2)))"

text \<open>Line 19: \<^verbatim>\<open>m = [np.sign(0.5 - random()) for _ in indices]\<close>.\<close>

definition init_spins :: "nat \<Rightarrow> rng \<Rightarrow> real list \<times> rng" where
  "init_spins n g = map_random (\<lambda>_ u. np_sign (0.5 - u)) [0..<n] g"

text \<open>
  Line 24, one element:
  \<^verbatim>\<open>self.i0 * (np.dot(m, c.J[i]) + c.h[i])\<close>; \<^verbatim>\<open>c.J[i]\<close>, the product and \<^verbatim>\<open>c.h[i]\<close> are
  evaluated in this order.
\<close>

definition input_current :: "solver \<Rightarrow> circuit \<Rightarrow> real list \<Rightarrow> nat \<Rightarrow> py_error + real" where
  "input_current slv c m i =
     (case getitem (circ_J c) i of
        Inl e \<Rightarrow> Inl e
      | Inr row \<Rightarrow>
          (case np_dot m row of
             Inl e \<Rightarrow> Inl e
           | Inr d \<Rightarrow>
               (case getitem (circ_h c) i of
                  Inl e \<Rightarrow> Inl e
                | Inr hi \<Rightarrow> Inr (slv_i0 slv * (d + hi)))))"

definition input_currents :: "solver \<Rightarrow> circuit \<Rightarrow> real list \<Rightarrow> py_error + real list" where
  "input_currents slv c m = try_map (input_current slv c m) [0..<circ_n_pbits c]"

text \<open>
  \<^verbatim>\<open>np.exp\<close> on float64. The smallest positive float64 is \<open>2 ^ -1074\<close>, so a correctly
  rounded exponential is 0.0 for every argument below \<open>ln (2 ^ -1075) = - 1075 * ln 2\<close>,
  about -745.13, and positive from there on. Above that bound the model takes the real
  exponential. Where the inner exponential of the survival value overflows, float64
  gives \<^verbatim>\<open>inf\<close> and, for a positive \<open>dt\<close>, 0.0 for the outer one; the model has no
  infinity and gives 0 there as soon as \<open>dt\<close> times the inner value exceeds the bound.
\<close>

definition exp_underflow :: real where
  "exp_underflow = - (1075 * ln 2)"

definition np_exp :: "real \<Rightarrow> real" where
  "np_exp x = (if x < exp_underflow then 0 else exp x)"

text \<open>
  Line 27: \<^verbatim>\<open>threshold = np.arctanh(self.expected_mean)\<close>. The inverse hyperbolic tangent
  of the reals is that of numpy for \<open>-1 < expected_mean < 1\<close>, the domain the spec gives;
  at \<open>1\<close> and \<open>-1\<close> numpy returns an infinity and beyond them \<^verbatim>\<open>nan\<close>, which the reals do
  not have: what is proved of the value of the threshold assumes the domain.
\<close>

definition threshold :: "solver \<Rightarrow> real" where
  "threshold slv = artanh (slv_expected_mean slv)"

text \<open>
  Lines 28-31, one element:
  \<^verbatim>\<open>np.exp(-1 * self.dt * np.exp(-1 * m[i] * (I[i] + threshold)))\<close>.
\<close>

definition survival :: "solver \<Rightarrow> real \<Rightarrow> real \<Rightarrow> real" where
  "survival slv mi Ii =
     np_exp (- 1 * slv_dt slv * np_exp (- 1 * mi * (Ii + threshold slv)))"

definition survivals :: "solver \<Rightarrow> nat \<Rightarrow> real list \<Rightarrow> real list \<Rightarrow> real list" where
  "survivals slv n m I = map (\<lambda>i. survival slv (m ! i) (I ! i)) [0..<n]"

text \<open>
  Line 34: \<^verbatim>\<open>m = [m[i] * np.sign(s[i] - random()) for i in indices]\<close>. Every element
  reads the list \<^verbatim>\<open>m\<close> bound before the comprehension; the name is rebound afterwards.
\<close>

definition update_spins :: "nat \<Rightarrow> real list \<Rightarrow> real list \<Rightarrow> rng \<Rightarrow> real list \<times> rng" where
  "update_spins n m s g = map_random (\<lambda>i v. m ! i * np_sign (s ! i - v)) [0..<n] g"

text \<open>
  Lines 39-41:
  \<^verbatim>\<open>self.i0 * (np.dot(m, c.h) + np.multiply(0.5, np.dot(np.dot(m, c.J), m)))\<close>.
\<close>

definition energy :: "solver \<Rightarrow> circuit \<Rightarrow> real list \<Rightarrow> py_error + real" where
  "energy slv c m =
     (case np_dot m (circ_h c) of
        Inl e \<Rightarrow> Inl e
      | Inr mh \<Rightarrow>
          (case np_dot_vm m (circ_J c) of
             Inl e \<Rightarrow> Inl e
           | Inr mJ \<Rightarrow>
               (case np_dot mJ m of
                  Inl e \<Rightarrow> Inl e
                | Inr q \<Rightarrow> Inr (slv_i0 slv * (mh + 0.5 * q)))))"

text \<open>
  The body of the loop over \<^verbatim>\<open>run\<close>, as a function of the spins and the generator it
  starts from: the currents, the new spins, the energy and the generator it leaves.
\<close>

definition step :: "solver \<Rightarrow> circuit \<Rightarrow> real list \<times> rng
    \<Rightarrow> py_error + (real list \<times> real list \<times> real \<times> rng)" where
  "step slv c mg =
     (case mg of (m, g) \<Rightarrow>
        (case input_currents slv c m of
           Inl e \<Rightarrow> Inl e
         | Inr I \<Rightarrow>
             (case update_spins (circ_n_pbits c) m (survivals slv (circ_n_pbits c) m I) g of
                (m', g') \<Rightarrow>
                  (case energy slv c m' of
                     Inl e \<Rightarrow> Inl e
                   | Inr E \<Rightarrow> Inr (I, m', E, g')))))"

text \<open>
  The state of the loop: the current spins \<^verbatim>\<open>m\<close>, the three preallocated histories and
  the generator.
\<close>

record loop_state =
  ls_m :: "real list"
  ls_all_I :: "real list list"
  ls_all_m :: "real list list"
  ls_E :: "real list"
  ls_rng :: rng

definition body :: "solver \<Rightarrow> circuit \<Rightarrow> nat \<Rightarrow> loop_state \<Rightarrow> py_error + loop_state" where
  "body slv c run st =
     (case step slv c (ls_m st, ls_rng st) of
        Inl e \<Rightarrow> Inl e
      | Inr (I, m', E, g') \<Rightarrow>
          Inr \<lparr>ls_m = m',
               ls_all_I = (ls_all_I st)[run := I],
               ls_all_m = (ls_all_m st)[run := m'],
               ls_E = (ls_E st)[run := E],
               ls_rng = g'\<rparr>)"

fun loop :: "solver \<Rightarrow> circuit \<Rightarrow> nat list \<Rightarrow> loop_state \<Rightarrow> py_error + loop_state" where
  "loop slv c [] st = Inr st"
| "loop slv c (run # runs) st =
     (case body slv c run st of Inl e \<Rightarrow> Inl e | Inr st' \<Rightarrow> loop slv c runs st')"

text \<open>
  \<^verbatim>\<open>CaSuDaSolver.solve\<close>: the three histories, and the generator as the call leaves it.
\<close>

definition solve :: "solver \<Rightarrow> circuit \<Rightarrow> rng
    \<Rightarrow> py_error + ((real list list \<times> real list list \<times> real list) \<times> rng)" where
  "solve slv c g =
     (case init_spins (circ_n_pbits c) g of
        (m, g1) \<Rightarrow>
          (case loop slv c [0..<slv_Nt slv]
                  \<lparr>ls_m = m,
                   ls_all_I = replicate (slv_Nt slv) [],
                   ls_all_m = replicate (slv_Nt slv) [],
                   ls_E = replicate (slv_Nt slv) 0,
                   ls_rng = g1\<rparr> of
             Inl e \<Rightarrow> Inl e
           | Inr st \<Rightarrow> Inr ((ls_all_I st, ls_all_m st, ls_E st), ls_rng st)))"

text \<open>The shapes \<^verbatim>\<open>solve\<close> needs: \<^verbatim>\<open>J\<close> is n by n and \<^verbatim>\<open>h\<close> has length n.\<close>

definition wf_circuit :: "circuit \<Rightarrow> bool" where
  "wf_circuit c \<longleftrightarrow>
     length (circ_J c) = circ_n_pbits c \<and>
     list_all (\<lambda>row. length row = circ_n_pbits c) (circ_J c) \<and>
     length (circ_h c) = circ_n_pbits c"

text \<open>
  The spins step \<open>t\<close> starts from: the initial vector for the first step, and afterwards
  the vector the step before has recorded in \<^verbatim>\<open>all_m\<close>.
\<close>

definition pre_spins :: "circuit \<Rightarrow> rng \<Rightarrow> real list list \<Rightarrow> nat \<Rightarrow> real list" where
  "pre_spins c g am t = (if t = 0 then fst (init_spins (circ_n_pbits c) g) else am ! (t - 1))"

text \<open>
  Entry \<open>t\<close> of the three histories of \<open>st'\<close> is what one pass of the loop body gives, for
  a loop that started at \<open>run = k\<close> with spins \<open>m0\<close> and generator \<open>g0\<close>.
\<close>

definition recorded :: "solver \<Rightarrow> circuit \<Rightarrow> real list \<Rightarrow> rng \<Rightarrow> nat \<Rightarrow> loop_state \<Rightarrow> nat \<Rightarrow> bool" where
  "recorded slv c m0 g0 k st' t \<longleftrightarrow>
     step slv c (if t = k then m0 else ls_all_m st' ! (t - 1),
                 sdrop ((t - k) * circ_n_pbits c) g0)
       = Inr (ls_all_I st' ! t, ls_all_m st' ! t, ls_E st' ! t,
              sdrop ((t - k + 1) * circ_n_pbits c) g0)"

section \<open>The circuit and module decorators (p_kit/psl/decorators.py)\<close>

text \<open>
  Python objects are modelled by what the decorators look at. An object is the list of
  its attributes in insertion order, as \<^verbatim>\<open>vars\<close> and \<^verbatim>\<open>__dict__\<close> give them; \<^verbatim>\<open>setattr\<close>
  is \<^const>\<open>AList.update\<close>, which overwrites in place and appends a new name, as a
  Python dict does. Inherited class attributes are not modelled.
\<close>

text \<open>A numpy array: its \<^verbatim>\<open>shape\<close> and its entries in row-major order.\<close>

datatype ndarray = NDArray (nd_shape: "nat list") (nd_data: "real list")

definition np_zeros :: "nat list \<Rightarrow> ndarray" where
  "np_zeros sh = NDArray sh (replicate (prod_list sh) 0)"

text \<open>
  Modelled from the spec: the class \<^verbatim>\<open>Port\<close> of \<^verbatim>\<open>p_kit/psl/context.py\<close>, which is not
  among the sources. The spec gives a port a name, an index and a non-owning reference to
  its circuit; the index is absent until \<^verbatim>\<open>__new__\<close> assigns it, and the reference back to
  the owning instance is left out of the model.
\<close>

datatype port = Port (port_name: string) (port_index: "nat option")

datatype pyval =
    IntV int
  | ArrV ndarray
  | PortV port
  | DictV "(string \<times> pyval) list"
  | ObjV "(string \<times> pyval) list"
  | CtxV nat
  | OtherV

text \<open>
  The exceptions of the decorators. Python raises \<^verbatim>\<open>ValueError\<close> for the first three,
  told apart by their messages; the constructors carry what the message prints and are
  named as in the spec's taxonomy.
\<close>

datatype psl_error =
    PortCountMismatch string int nat "string list"
  | ShapeMismatch string "int list" "nat list"
  | InvalidFormat
  | AttributeError

text \<open>\<^verbatim>\<open>hasattr(v, name)\<close>: only objects with an attribute list have named attributes.\<close>

fun hasattr :: "pyval \<Rightarrow> string \<Rightarrow> bool" where
  "hasattr (ObjV as) name = (map_of as name \<noteq> None)"
| "hasattr _ name = False"

subsection \<open>\<^verbatim>\<open>pcircuit\<close>\<close>

record pyclass =
  cls_name :: string
  cls_dict :: "(string \<times> pyval) list"

text \<open>
  Lines 109-110:
  \<^verbatim>\<open>{name: attr for name, attr in cls.__dict__.items() if isinstance(attr, Port)}\<close>.
\<close>

fun port_attrs :: "(string \<times> pyval) list \<Rightarrow> (string \<times> port) list" where
  "port_attrs [] = []"
| "port_attrs ((name, PortV p) # rest) = (name, p) # port_attrs rest"
| "port_attrs (_ # rest) = port_attrs rest"

text \<open>
  What the closure \<^verbatim>\<open>__new__\<close> holds of the decorated class: the class, \<^verbatim>\<open>n_pbits\<close>,
  \<^verbatim>\<open>port_attrs\<close> and \<^verbatim>\<open>port_indices\<close>.
\<close>

record pcircuit_class =
  pc_cls :: pyclass
  pc_n_pbits :: int
  pc_port_attrs :: "(string \<times> port) list"
  pc_port_indices :: "(string \<times> nat) list"

text \<open>
  \<^verbatim>\<open>pcircuit(n_pbits)(cls)\<close>, lines 108-119 and 153-154. The keys of \<^verbatim>\<open>port_attrs\<close> are
  those of a dict, so \<^verbatim>\<open>enumerate\<close> pairs each with its position.
\<close>

definition pcircuit :: "int \<Rightarrow> pyclass \<Rightarrow> psl_error + pcircuit_class" where
  "pcircuit n_pbits cls =
     (let pa = port_attrs (cls_dict cls) in
      if int (length pa) \<noteq> n_pbits
      then Inl (PortCountMismatch (cls_name cls) n_pbits (length pa) (map fst pa))
      else Inr \<lparr>pc_cls = cls, pc_n_pbits = n_pbits, pc_port_attrs = pa,
                pc_port_indices = zip (map fst pa) [0..<length pa]\<rparr>)"

text \<open>
  Lines 131-143, for one of \<^verbatim>\<open>h\<close> and \<^verbatim>\<open>J\<close>: when the class has the attribute, its
  \<^verbatim>\<open>shape\<close> must be the required one. Only an array has a \<^verbatim>\<open>shape\<close>.
\<close>

definition check_shape :: "pyclass \<Rightarrow> string \<Rightarrow> int list \<Rightarrow> psl_error + unit" where
  "check_shape cls name required =
     (case map_of (cls_dict cls) name of
        None \<Rightarrow> Inr ()
      | Some (ArrV a) \<Rightarrow>
          if map int (nd_shape a) \<noteq> required
          then Inl (ShapeMismatch name required (nd_shape a))
          else Inr ()
      | Some _ \<Rightarrow> Inl AttributeError)"

text \<open>\<^verbatim>\<open>getattr(cls, name, default)\<close>.\<close>

definition getattr_default :: "pyclass \<Rightarrow> string \<Rightarrow> pyval \<Rightarrow> pyval" where
  "getattr_default cls name d = (case map_of (cls_dict cls) name of None \<Rightarrow> d | Some v \<Rightarrow> v)"

text \<open>
  Lines 145-149: every declared port is copied onto the instance under its attribute
  name, with \<^verbatim>\<open>index = port_indices[name]\<close>.
\<close>

definition set_ports :: "(string \<times> nat) list \<Rightarrow> (string \<times> port) list
    \<Rightarrow> (string \<times> pyval) list \<Rightarrow> (string \<times> pyval) list" where
  "set_ports port_indices pa inst =
     fold (\<lambda>(name, p) inst.
             AList.update name (PortV (Port (port_name p) (map_of port_indices name))) inst)
          pa inst"

text \<open>The \<^verbatim>\<open>__new__\<close> that \<^verbatim>\<open>pcircuit\<close> installs, lines 123-151.\<close>

definition pc_new :: "pcircuit_class \<Rightarrow> psl_error + (string \<times> pyval) list" where
  "pc_new dc =
     (let n = pc_n_pbits dc;
          cls = pc_cls dc;
          inst = [(''n_pbits'', IntV n),
                  (''h'', getattr_default cls ''h'' (ArrV (np_zeros [nat n, 1]))),
                  (''J'', getattr_default cls ''J'' (ArrV (np_zeros [nat n, nat n]))),
                  (''_connections'', DictV [])]
      in case check_shape cls ''h'' [n, 1] of
           Inl e \<Rightarrow> Inl e
         | Inr _ \<Rightarrow>
             (case check_shape cls ''J'' [n, n] of
                Inl e \<Rightarrow> Inl e
              | Inr _ \<Rightarrow> Inr (set_ports (pc_port_indices dc) (pc_port_attrs dc) inst)))"

subsection \<open>\<^verbatim>\<open>module\<close>\<close>

text \<open>
  The class \<^verbatim>\<open>ModuleContext\<close> of \<^verbatim>\<open>p_kit/psl/context.py\<close> is not among the sources.
  Its values are a type parameter \<open>'ctx\<close>, and what the decorator uses of it are
  parameters: \<open>new_context\<close> for what \<^verbatim>\<open>ModuleContext()\<close> makes, \<open>register_instance\<close>
  for the method of that name, and \<open>ctx_synthesize\<close> for its \<^verbatim>\<open>synthesize\<close>. What
  \<^verbatim>\<open>register_instance\<close> does with the object it is given is therefore left open; the
  model says which objects it is called with, and in which order.

  The contexts live in a heap, addressed by position, so that two instances can hold the
  same one. A class is modelled by its original \<^verbatim>\<open>__init__\<close>, a function of the constructor
  arguments and the instance's attributes.
\<close>

type_synonym 'ctx heap = "'ctx list"

record 'a module_class =
  mod_context :: nat
  mod_original_init :: "'a \<Rightarrow> (string \<times> pyval) list \<Rightarrow> (string \<times> pyval) list"

text \<open>
  \<^verbatim>\<open>module(cls)\<close>: line 38 creates the context that the three closures share. The name
  carries a suffix because \<open>module\<close> is taken in HOL.
\<close>

definition module_decorator :: "'ctx
    \<Rightarrow> ('a \<Rightarrow> (string \<times> pyval) list \<Rightarrow> (string \<times> pyval) list) \<Rightarrow> 'ctx heap
    \<Rightarrow> 'a module_class \<times> 'ctx heap" where
  "module_decorator new_context original_init hp =
     (\<lparr>mod_context = length hp, mod_original_init = original_init\<rparr>,
      hp @ [new_context])"

text \<open>
  Lines 50-52: the loop over \<^verbatim>\<open>vars(self).items()\<close>. \<^verbatim>\<open>self._context\<close> is read only
  when an attribute passes the test.
\<close>

fun register_attrs :: "('ctx \<Rightarrow> pyval \<Rightarrow> 'ctx) \<Rightarrow> (string \<times> pyval) list
    \<Rightarrow> (string \<times> pyval) list \<Rightarrow> 'ctx heap \<Rightarrow> psl_error + 'ctx heap" where
  "register_attrs register_instance self [] hp = Inr hp"
| "register_attrs register_instance self ((attr_name, attr_value) # rest) hp =
     (if hasattr attr_value ''n_pbits''
      then (case map_of self ''_context'' of
              Some (CtxV a) \<Rightarrow>
                if a < length hp
                then register_attrs register_instance self rest
                       (hp[a := register_instance (hp ! a) attr_value])
                else Inl AttributeError
            | _ \<Rightarrow> Inl AttributeError)
      else register_attrs register_instance self rest hp)"

text \<open>
  Calling the decorated class: \<^verbatim>\<open>__new__\<close> (lines 43-46) makes the instance and stores
  the shared context in it, \<^verbatim>\<open>__init__\<close> (lines 48-52) runs the original initialiser and
  then the loop.
\<close>

definition new_instance :: "('ctx \<Rightarrow> pyval \<Rightarrow> 'ctx) \<Rightarrow> 'a module_class \<Rightarrow> 'a \<Rightarrow> 'ctx heap
    \<Rightarrow> psl_error + ((string \<times> pyval) list \<times> 'ctx heap)" where
  "new_instance register_instance mc args hp =
     (let self = mod_original_init mc args [(''_context'', CtxV (mod_context mc))]
      in case register_attrs register_instance self self hp of
           Inl e \<Rightarrow> Inl e
         | Inr hp' \<Rightarrow> Inr (self, hp'))"

text \<open>The method \<^verbatim>\<open>synthesize\<close>, lines 54-80.\<close>

definition synthesize :: "('ctx \<Rightarrow> string \<Rightarrow> 'r) \<Rightarrow> 'ctx heap
    \<Rightarrow> (string \<times> pyval) list \<Rightarrow> string \<Rightarrow> psl_error + 'r" where
  "synthesize ctx_synthesize hp self format =
     (if format \<notin> set [''sparse'', ''dense''] then Inl InvalidFormat
      else (case map_of self ''_context'' of
              Some (CtxV a) \<Rightarrow>
                if a < length hp then Inr (ctx_synthesize (hp ! a) format)
                else Inl AttributeError
            | _ \<Rightarrow> Inl AttributeError))"

text \<open>
  The calls of \<^verbatim>\<open>register_instance\<close> on a context, oldest first: the context after them
  is \<open>registrations register_instance vs ctx\<close>.
\<close>

definition registrations :: "('ctx \<Rightarrow> pyval \<Rightarrow> 'ctx) \<Rightarrow> pyval list \<Rightarrow> 'ctx \<Rightarrow> 'ctx" where
  "registrations register_instance vs ctx = fold (\<lambda>v ctx. register_instance ctx v) vs ctx"

text \<open>
  A context that is nothing but the list of the objects \<^verbatim>\<open>register_instance\<close> has been
  called with. It makes the calls visible and decides nothing about what the absent
  class does with them.
\<close>

definition record_call :: "pyval list \<Rightarrow> pyval \<Rightarrow> pyval list" where
  "record_call calls v = calls @ [v]"

text \<open>The attribute values of an instance that pass the test of line 51.\<close>

definition circuits_of :: "(string \<times> pyval) list \<Rightarrow> pyval list" where
  "circuits_of self = filter (\<lambda>v. hasattr v ''n_pbits'') (map snd self)"


text \<open>
  What \<^verbatim>\<open>__new__\<close> accepts of a class attribute \<^verbatim>\<open>h\<close> or \<^verbatim>\<open>J\<close>: absent, or an
  array of the required shape.
\<close>

definition supplied_ok :: "pyclass \<Rightarrow> string \<Rightarrow> int list \<Rightarrow> bool" where
  "supplied_ok cls name required =
     (case map_of (cls_dict cls) name of
        None \<Rightarrow> True
      | Some (ArrV a) \<Rightarrow> map int (nd_shape a) = required
      | Some _ \<Rightarrow> False)"

subsection \<open>Declarations used as examples\<close>

text \<open>
  A class with two ports \<^verbatim>\<open>a\<close> and \<^verbatim>\<open>b\<close> and further class attributes, and what
  \<^verbatim>\<open>pcircuit(2)\<close> makes of it.
\<close>

definition two_port_class :: "(string \<times> pyval) list \<Rightarrow> pyclass" where
  "two_port_class extra =
     \<lparr>cls_name = ''G'',
      cls_dict = [(''a'', PortV (Port ''a'' None)), (''b'', PortV (Port ''b'' None))] @ extra\<rparr>"

definition two_port_decorated :: "(string \<times> pyval) list \<Rightarrow> pcircuit_class" where
  "two_port_decorated extra =
     \<lparr>pc_cls = two_port_class extra, pc_n_pbits = 2,
      pc_port_attrs = [(''a'', Port ''a'' None), (''b'', Port ''b'' None)],
      pc_port_indices = [(''a'', 0), (''b'', 1)]\<rparr>"


text \<open>
  A gate of \<open>n\<close> units with zero \<^verbatim>\<open>h\<close> and \<^verbatim>\<open>J\<close>, and an \<^verbatim>\<open>__init__\<close> that takes
  \<open>n\<close> and sets \<^verbatim>\<open>self.gate\<close> to such a gate.
\<close>

definition gate :: "int \<Rightarrow> pyval" where
  "gate n = ObjV [(''n_pbits'', IntV n), (''h'', ArrV (np_zeros [nat n, 1])),
                  (''J'', ArrV (np_zeros [nat n, nat n]))]"

definition gate_init :: "int \<Rightarrow> (string \<times> pyval) list \<Rightarrow> (string \<times> pyval) list" where
  "gate_init n self = AList.update ''gate'' (gate n) self"

section \<open>Facts about the solver\<close>

subsection \<open>Comprehensions and dot products\<close>

lemma map_random_eq:
  "map_random f xs g = (map (\<lambda>(i, u). f i u) (zip xs (stake (length xs) g)), sdrop (length xs) g)"
  by (induction xs arbitrary: g) (simp_all add: random_def)

lemma try_map_Inr:
  "(\<And>x. x \<in> set xs \<Longrightarrow> f x = Inr (h x)) \<Longrightarrow> try_map f xs = Inr (map h xs)"
  by (induction xs) simp_all

lemma sum_list_zip_nth:
  "length a = length b \<Longrightarrow>
   sum_list (map (\<lambda>(x, y). x * y) (zip a b)) = (\<Sum>j<length a. a ! j * (b ! j :: real))"
proof -
  assume len: "length a = length b"
  have "map (\<lambda>(x, y). x * y) (zip a b) = map (\<lambda>j. a ! j * b ! j) [0..<length a]"
    using len by (intro nth_equalityI) simp_all
  then show ?thesis
    by (simp add: sum_list_sum_nth atLeast0LessThan)
qed

lemma np_dot_sum:
  "length a = length b \<Longrightarrow> np_dot a b = Inr (\<Sum>j<length a. a ! j * b ! j)"
  by (simp add: np_dot_def sum_list_zip_nth)

lemma input_current_wf:
  assumes "wf_circuit c" "length m = circ_n_pbits c" "i < circ_n_pbits c"
  shows "input_current slv c m i =
    Inr (slv_i0 slv * ((\<Sum>j<circ_n_pbits c. m ! j * circ_J c ! i ! j) + circ_h c ! i))"
proof -
  have row: "length (circ_J c ! i) = circ_n_pbits c"
    using assms by (simp add: wf_circuit_def list_all_length)
  show ?thesis
    using assms row by (simp add: input_current_def getitem_def wf_circuit_def np_dot_sum)
qed

lemma input_currents_wf:
  assumes "wf_circuit c" "length m = circ_n_pbits c"
  shows "input_currents slv c m =
    Inr (map (\<lambda>i. slv_i0 slv * ((\<Sum>j<circ_n_pbits c. m ! j * circ_J c ! i ! j) + circ_h c ! i))
           [0..<circ_n_pbits c])"
  unfolding input_currents_def
  by (rule try_map_Inr) (simp add: input_current_wf [OF assms])

lemma ncols_wf: "wf_circuit c \<Longrightarrow> ncols (circ_J c) = circ_n_pbits c"
  by (cases "circ_J c") (auto simp: ncols_def wf_circuit_def)

lemma energy_wf:
  assumes "wf_circuit c" "length m = circ_n_pbits c"
  shows "energy slv c m =
    Inr (slv_i0 slv * ((\<Sum>i<circ_n_pbits c. m ! i * circ_h c ! i)
         + 0.5 * (\<Sum>i<circ_n_pbits c. \<Sum>j<circ_n_pbits c. m ! i * circ_J c ! i ! j * m ! j)))"
proof -
  let ?n = "circ_n_pbits c"
  have lens: "length (circ_h c) = ?n" "length (circ_J c) = ?n"
    using assms by (simp_all add: wf_circuit_def)
  have vm: "np_dot_vm m (circ_J c) =
      Inr (map (\<lambda>j. \<Sum>i<?n. m ! i * circ_J c ! i ! j) [0..<?n])"
    using assms lens by (simp add: np_dot_vm_def ncols_wf sum_list_sum_nth atLeast0LessThan)
  have "(\<Sum>j<?n. (\<Sum>i<?n. m ! i * circ_J c ! i ! j) * m ! j)
      = (\<Sum>i<?n. \<Sum>j<?n. m ! i * circ_J c ! i ! j * m ! j)"
    by (subst sum.swap) (simp add: sum_distrib_right)
  then show ?thesis
    using assms lens by (simp add: energy_def vm np_dot_sum)
qed

subsection \<open>One pass of the loop body\<close>

lemma step_rng:
  "step slv c (m, g) = Inr (I, m', E, g') \<Longrightarrow> g' = sdrop (circ_n_pbits c) g"
  by (auto simp: step_def update_spins_def map_random_eq split: sum.splits)

lemma step_wf:
  assumes "wf_circuit c" "length m = circ_n_pbits c"
  shows "\<exists>I m' E. step slv c (m, g) = Inr (I, m', E, sdrop (circ_n_pbits c) g)
           \<and> length m' = circ_n_pbits c"
proof -
  obtain I where I: "input_currents slv c m = Inr I"
    using input_currents_wf [OF assms] by blast
  obtain m' g' where u: "update_spins (circ_n_pbits c) m (survivals slv (circ_n_pbits c) m I) g = (m', g')"
    by (cases "update_spins (circ_n_pbits c) m (survivals slv (circ_n_pbits c) m I) g")
  then have len: "length m' = circ_n_pbits c" and g': "g' = sdrop (circ_n_pbits c) g"
    by (auto simp: update_spins_def map_random_eq)
  obtain E where E: "energy slv c m' = Inr E"
    using energy_wf [OF assms(1) len] by blast
  show ?thesis
    using I u E len g' by (simp add: step_def)
qed

lemma loop_total:
  assumes "wf_circuit c"
  shows "length (ls_m st) = circ_n_pbits c \<Longrightarrow> \<exists>st'. loop slv c runs st = Inr st'"
proof (induction runs arbitrary: st)
  case Nil
  then show ?case by simp
next
  case (Cons run runs)
  obtain I m' E where s: "step slv c (ls_m st, ls_rng st) = Inr (I, m', E, sdrop (circ_n_pbits c) (ls_rng st))"
    and len: "length m' = circ_n_pbits c"
    using step_wf [OF assms Cons.prems] by blast
  let ?st1 = "\<lparr>ls_m = m', ls_all_I = (ls_all_I st)[run := I], ls_all_m = (ls_all_m st)[run := m'],
      ls_E = (ls_E st)[run := E], ls_rng = sdrop (circ_n_pbits c) (ls_rng st)\<rparr>"
  have b: "body slv c run st = Inr ?st1"
    using s by (simp add: body_def)
  have "\<exists>st'. loop slv c runs ?st1 = Inr st'"
    by (rule Cons.IH) (simp add: len)
  then show ?case using b by simp
qed

lemma loop_upt:
  assumes "loop slv c [k..<N] st = Inr st'"
    and "length (ls_all_I st) = N" "length (ls_all_m st) = N" "length (ls_E st) = N"
  shows "length (ls_all_I st') = N \<and> length (ls_all_m st') = N \<and> length (ls_E st') = N
       \<and> (\<forall>t<k. ls_all_I st' ! t = ls_all_I st ! t \<and> ls_all_m st' ! t = ls_all_m st ! t
                 \<and> ls_E st' ! t = ls_E st ! t)
       \<and> (\<forall>t. k \<le> t \<and> t < N \<longrightarrow> recorded slv c (ls_m st) (ls_rng st) k st' t)
       \<and> ls_rng st' = sdrop ((N - k) * circ_n_pbits c) (ls_rng st)"
  using assms
proof (induction "N - k" arbitrary: k st)
  case 0
  then have le: "N \<le> k" by simp
  then have "[k..<N] = []" by simp
  with "0.prems" have "st' = st" by simp
  with "0.prems" le show ?case by auto
next
  case (Suc d)
  let ?n = "circ_n_pbits c"
  from Suc.hyps have kN: "k < N" and d: "d = N - Suc k" by simp_all
  then have upt: "[k..<N] = k # [Suc k..<N]" by (simp add: upt_rec)
  from Suc.prems(1) upt obtain st1 where b: "body slv c k st = Inr st1"
    and l: "loop slv c [Suc k..<N] st1 = Inr st'"
    by (auto split: sum.splits)
  from b obtain I m' E g' where s: "step slv c (ls_m st, ls_rng st) = Inr (I, m', E, g')"
    and st1: "st1 = \<lparr>ls_m = m', ls_all_I = (ls_all_I st)[k := I], ls_all_m = (ls_all_m st)[k := m'],
      ls_E = (ls_E st)[k := E], ls_rng = g'\<rparr>"
    by (auto simp: body_def split: sum.splits)
  have g': "g' = sdrop ?n (ls_rng st)" using s by (rule step_rng)
  have lens1: "length (ls_all_I st1) = N" "length (ls_all_m st1) = N" "length (ls_E st1) = N"
    using Suc.prems st1 by simp_all
  note IH = Suc.hyps(1) [OF d l lens1]
  have keep: "ls_all_I st' ! k = I" "ls_all_m st' ! k = m'" "ls_E st' ! k = E"
    using IH kN Suc.prems st1 by simp_all
  have old: "\<forall>t<k. ls_all_I st' ! t = ls_all_I st ! t \<and> ls_all_m st' ! t = ls_all_m st ! t
                 \<and> ls_E st' ! t = ls_E st ! t"
    using IH st1 by simp
  have rec: "recorded slv c (ls_m st) (ls_rng st) k st' t" if t: "k \<le> t" "t < N" for t
  proof (cases "t = k")
    case True
    then show ?thesis using s keep g' by (simp add: recorded_def)
  next
    case False
    with t have t1: "Suc k \<le> t" by simp
    with IH t have r: "recorded slv c (ls_m st1) (ls_rng st1) (Suc k) st' t" by blast
    have e1: "(if t = Suc k then ls_m st1 else ls_all_m st' ! (t - 1))
            = (if t = k then ls_m st else ls_all_m st' ! (t - 1))"
      using False keep st1 by auto
    have e2: "sdrop ((t - Suc k) * ?n) (ls_rng st1) = sdrop ((t - k) * ?n) (ls_rng st)"
    proof -
      have "?n + (t - Suc k) * ?n = (t - k) * ?n"
        using t1 by (metis Suc_diff_le diff_Suc_Suc mult_Suc)
      then show ?thesis by (simp add: st1 g')
    qed
    have e3: "sdrop ((t - Suc k + 1) * ?n) (ls_rng st1) = sdrop ((t - k + 1) * ?n) (ls_rng st)"
    proof -
      have "?n + (t - Suc k + 1) * ?n = (t - k + 1) * ?n"
        using t1 by (metis Suc_diff_le diff_Suc_Suc mult_Suc Suc_eq_plus1)
      then show ?thesis by (simp add: st1 g')
    qed
    from r show ?thesis
      unfolding recorded_def e1 e2 e3 .
  qed
  have fin: "ls_rng st' = sdrop ((N - k) * ?n) (ls_rng st)"
  proof -
    have "?n + (N - Suc k) * ?n = (N - k) * ?n"
      using kN by (metis Suc_diff_Suc mult_Suc)
    then show ?thesis using IH by (simp add: st1 g')
  qed
  show ?case using IH old rec fin by simp
qed

lemma step_len:
  assumes "step slv c (m, g) = Inr (I, m', E, g')"
  shows "length m' = circ_n_pbits c"
  using assms
  by (auto simp: step_def update_spins_def map_random_eq split: sum.splits)

lemma zip_upt_stake:
  "map (\<lambda>(i, u). f i u) (zip [0..<n] (stake n g)) = map (\<lambda>i. f i (g !! i)) [0..<n]"
  by (intro nth_equalityI) simp_all

lemma init_spins_eq:
  "init_spins n g = (map (\<lambda>i. np_sign (0.5 - g !! i)) [0..<n], sdrop n g)"
  by (simp add: init_spins_def map_random_eq zip_upt_stake)

lemma update_spins_eq:
  "update_spins n m s g = (map (\<lambda>i. m ! i * np_sign (s ! i - g !! i)) [0..<n], sdrop n g)"
  by (simp add: update_spins_def map_random_eq zip_upt_stake)

lemma step_spins:
  assumes "step slv c (m, g) = Inr (I, m', E, g')"
  shows "m' = map (\<lambda>i. m ! i * np_sign (survival slv (m ! i) (I ! i) - g !! i))
                 [0..<circ_n_pbits c]"
  using assms
  by (auto simp: step_def update_spins_eq survivals_def split: sum.splits)

lemma step_currents:
  assumes "step slv c (m, g) = Inr (I, m', E, g')"
  shows "input_currents slv c m = Inr I"
  using assms by (auto simp: step_def split: sum.splits prod.splits)

lemma step_energy:
  assumes "step slv c (m, g) = Inr (I, m', E, g')"
  shows "energy slv c m' = Inr E"
  using assms by (auto simp: step_def split: sum.splits prod.splits)

lemma solve_recorded:
  assumes "solve slv c g = Inr ((aI, am, E), g')"
  shows "length aI = slv_Nt slv" "length am = slv_Nt slv" "length E = slv_Nt slv"
    and "g' = sdrop (circ_n_pbits c + slv_Nt slv * circ_n_pbits c) g"
    and "t < slv_Nt slv \<Longrightarrow>
         step slv c (pre_spins c g am t, sdrop (circ_n_pbits c + t * circ_n_pbits c) g)
           = Inr (aI ! t, am ! t, E ! t, sdrop (circ_n_pbits c + (t + 1) * circ_n_pbits c) g)"
proof -
  let ?n = "circ_n_pbits c" and ?N = "slv_Nt slv"
  let ?st0 = "\<lparr>ls_m = fst (init_spins ?n g), ls_all_I = replicate ?N [],
      ls_all_m = replicate ?N [], ls_E = replicate ?N 0, ls_rng = sdrop ?n g\<rparr>"
  from assms obtain st' where l: "loop slv c [0..<?N] ?st0 = Inr st'"
    and st': "aI = ls_all_I st'" "am = ls_all_m st'" "E = ls_E st'" "g' = ls_rng st'"
    by (auto simp: solve_def init_spins_eq split: sum.splits)
  have inv: "length (ls_all_I st') = ?N \<and> length (ls_all_m st') = ?N \<and> length (ls_E st') = ?N
       \<and> (\<forall>t<0. ls_all_I st' ! t = ls_all_I ?st0 ! t \<and> ls_all_m st' ! t = ls_all_m ?st0 ! t
                 \<and> ls_E st' ! t = ls_E ?st0 ! t)
       \<and> (\<forall>t. 0 \<le> t \<and> t < ?N \<longrightarrow> recorded slv c (ls_m ?st0) (ls_rng ?st0) 0 st' t)
       \<and> ls_rng st' = sdrop ((?N - 0) * ?n) (ls_rng ?st0)"
    by (rule loop_upt [OF l]) simp_all
  show "length aI = ?N" "length am = ?N" "length E = ?N"
    using inv st' by simp_all
  show "g' = sdrop (?n + ?N * ?n) g"
    using inv st' by simp
  show "step slv c (pre_spins c g am t, sdrop (?n + t * ?n) g)
           = Inr (aI ! t, am ! t, E ! t, sdrop (?n + (t + 1) * ?n) g)" if "t < ?N"
  proof -
    from inv that have "recorded slv c (ls_m ?st0) (ls_rng ?st0) 0 st' t" by blast
    then show ?thesis
      by (simp add: recorded_def pre_spins_def st')
  qed
qed

lemma solve_total:
  assumes "wf_circuit c"
  shows "\<exists>aI am E. solve slv c g
     = Inr ((aI, am, E), sdrop (circ_n_pbits c + slv_Nt slv * circ_n_pbits c) g)"
proof -
  let ?n = "circ_n_pbits c" and ?N = "slv_Nt slv"
  let ?st0 = "\<lparr>ls_m = fst (init_spins ?n g), ls_all_I = replicate ?N [],
      ls_all_m = replicate ?N [], ls_E = replicate ?N 0, ls_rng = sdrop ?n g\<rparr>"
  have "\<exists>st'. loop slv c [0..<?N] ?st0 = Inr st'"
    by (rule loop_total [OF assms]) (simp add: init_spins_eq)
  then obtain st' where l: "loop slv c [0..<?N] ?st0 = Inr st'" ..
  then have s: "solve slv c g = Inr ((ls_all_I st', ls_all_m st', ls_E st'), ls_rng st')"
    by (simp add: solve_def init_spins_eq)
  from solve_recorded(4) [OF s] s show ?thesis by auto
qed

lemma pre_spins_len:
  assumes "solve slv c g = Inr ((aI, am, E), g')" "t < slv_Nt slv"
  shows "length (pre_spins c g am t) = circ_n_pbits c"
proof (cases t)
  case 0
  then show ?thesis by (simp add: pre_spins_def init_spins_eq)
next
  case (Suc k)
  with assms have "k < slv_Nt slv" by simp
  from solve_recorded(5) [OF assms(1) this] have "length (am ! k) = circ_n_pbits c"
    by (rule step_len)
  with Suc show ?thesis by (simp add: pre_spins_def)
qed

lemma post_spins_len:
  assumes "solve slv c g = Inr ((aI, am, E), g')" "t < slv_Nt slv"
  shows "length (am ! t) = circ_n_pbits c"
  using solve_recorded(5) [OF assms] by (rule step_len)

subsection \<open>Which draw each unit consumes\<close>

lemma stake_eq_snth:
  assumes "stake K g2 = stake K g" "k < K"
  shows "g2 !! k = g !! k"
  using assms by (metis stake_nth)

lemma solve_spins_draws:
  assumes "solve slv c g = Inr ((aI, am, E), g')" and "t < slv_Nt slv"
  shows "am ! t = map (\<lambda>i. pre_spins c g am t ! i *
                      np_sign (survival slv (pre_spins c g am t ! i) (aI ! t ! i)
                               - g !! (circ_n_pbits c + t * circ_n_pbits c + i)))
                    [0..<circ_n_pbits c]"
  using step_spins [OF solve_recorded(5) [OF assms]] by (simp add: sdrop_snth)

lemma solve_prefix:
  assumes s1: "solve slv c g = Inr ((aI, am, E), g')"
    and s2: "solve slv c g2 = Inr ((aI2, am2, E2), g2')"
    and pre: "stake (circ_n_pbits c + slv_Nt slv * circ_n_pbits c) g2
            = stake (circ_n_pbits c + slv_Nt slv * circ_n_pbits c) g"
  shows "aI2 = aI \<and> am2 = am \<and> E2 = E"
proof -
  let ?n = "circ_n_pbits c" and ?N = "slv_Nt slv"
  have draw: "g2 !! (?n + t * ?n + i) = g !! (?n + t * ?n + i)" if "t < ?N" "i < ?n" for t i
  proof -
    have "Suc t * ?n \<le> ?N * ?n" using that(1) by (intro mult_le_mono1) simp
    then have "?n + t * ?n + i < ?n + ?N * ?n" using that(2) by simp
    with pre show ?thesis by (rule stake_eq_snth)
  qed
  have "g2 !! i = g !! i" if "i < ?n" for i
    using pre by (rule stake_eq_snth) (use that in simp)
  then have init: "fst (init_spins ?n g2) = fst (init_spins ?n g)"
    by (simp add: init_spins_eq)
  have same: "t < ?N \<Longrightarrow> aI2 ! t = aI ! t \<and> am2 ! t = am ! t \<and> E2 ! t = E ! t" for t
  proof (induction t)
    case 0
    have p: "pre_spins c g2 am2 0 = pre_spins c g am 0"
      by (simp add: pre_spins_def init)
    show ?case
    proof -
      have I: "aI2 ! 0 = aI ! 0"
        using step_currents [OF solve_recorded(5) [OF s1 0]]
          step_currents [OF solve_recorded(5) [OF s2 0]] p by simp
      have m: "am2 ! 0 = am ! 0"
        using solve_spins_draws [OF s1 0] solve_spins_draws [OF s2 0] p I draw [OF 0]
        by simp
      have "E2 ! 0 = E ! 0"
        using step_energy [OF solve_recorded(5) [OF s1 0]]
          step_energy [OF solve_recorded(5) [OF s2 0]] m by simp
      with I m show ?thesis by simp
    qed
  next
    case (Suc t)
    then have t: "t < ?N" and St: "Suc t < ?N" by simp_all
    from Suc.IH [OF t] have p: "pre_spins c g2 am2 (Suc t) = pre_spins c g am (Suc t)"
      by (simp add: pre_spins_def)
    have I: "aI2 ! Suc t = aI ! Suc t"
      using step_currents [OF solve_recorded(5) [OF s1 St]]
        step_currents [OF solve_recorded(5) [OF s2 St]] p by simp
    have m: "am2 ! Suc t = am ! Suc t"
      using solve_spins_draws [OF s1 St] solve_spins_draws [OF s2 St] p I draw [OF St]
      by simp
    have "E2 ! Suc t = E ! Suc t"
      using step_energy [OF solve_recorded(5) [OF s1 St]]
        step_energy [OF solve_recorded(5) [OF s2 St]] m by simp
    with I m show ?case by simp
  qed
  have "aI2 = aI"
    using solve_recorded(1) [OF s1] solve_recorded(1) [OF s2] same
    by (intro nth_equalityI) simp_all
  moreover have "am2 = am"
    using solve_recorded(2) [OF s1] solve_recorded(2) [OF s2] same
    by (intro nth_equalityI) simp_all
  moreover have "E2 = E"
    using solve_recorded(3) [OF s1] solve_recorded(3) [OF s2] same
    by (intro nth_equalityI) simp_all
  ultimately show ?thesis by simp
qed

subsection \<open>The survival value and the sign of the update\<close>

lemma exp_underflow_neg: "exp_underflow < 0"
  by (simp add: exp_underflow_def)

lemma np_exp_exp: "exp_underflow \<le> x \<Longrightarrow> np_exp x = exp x"
  by (simp add: np_exp_def)

lemma np_exp_underflow: "x < exp_underflow \<Longrightarrow> np_exp x = 0"
  by (simp add: np_exp_def)

lemma np_exp_0: "np_exp 0 = 1"
  using exp_underflow_neg by (simp add: np_exp_def)

lemma np_exp_minus_ln2: "np_exp (- ln 2) = 1 / 2"
proof -
  have "exp_underflow \<le> - ln 2"
    by (simp add: exp_underflow_def)
  then show ?thesis
    by (simp add: np_exp_exp exp_minus)
qed

lemma np_exp_nonneg: "0 \<le> np_exp x"
  by (simp add: np_exp_def)

lemma np_exp_le_1: "x \<le> 0 \<Longrightarrow> np_exp x \<le> 1"
  by (simp add: np_exp_def)

lemma survival_eq:
  "survival slv mi Ii
     = np_exp (- slv_dt slv * np_exp (- (mi * (Ii + artanh (slv_expected_mean slv)))))"
  by (simp add: survival_def threshold_def)

lemma survival_range:
  assumes "0 \<le> slv_dt slv"
  shows "0 \<le> survival slv mi Ii" "survival slv mi Ii \<le> 1"
proof -
  show "0 \<le> survival slv mi Ii"
    by (simp add: survival_def np_exp_nonneg)
  have "0 \<le> slv_dt slv * np_exp (- (mi * (Ii + threshold slv)))"
    using assms by (simp add: np_exp_nonneg)
  then have "- 1 * slv_dt slv * np_exp (- 1 * mi * (Ii + threshold slv)) \<le> 0"
    by simp
  then show "survival slv mi Ii \<le> 1"
    unfolding survival_def by (rule np_exp_le_1)
qed

text \<open>
  The survival value is exactly 0 as soon as \<open>dt\<close> times the inner exponential exceeds
  the underflow bound, which a finite product \<open>m\<^sub>i * (I\<^sub>i + threshold)\<close> reaches.
\<close>

lemma survival_zero:
  assumes "1075 * ln 2 < slv_dt slv * np_exp (- (mi * (Ii + threshold slv)))"
  shows "survival slv mi Ii = 0"
proof -
  have "- 1 * slv_dt slv * np_exp (- 1 * mi * (Ii + threshold slv)) < exp_underflow"
    using assms by (simp add: exp_underflow_def)
  then show ?thesis
    unfolding survival_def by (rule np_exp_underflow)
qed

lemma survival_one:
  assumes "1075 * ln 2 < mi * (Ii + threshold slv)"
  shows "survival slv mi Ii = 1"
proof -
  have "- 1 * mi * (Ii + threshold slv) < exp_underflow"
    using assms by (simp add: exp_underflow_def)
  then have "np_exp (- 1 * mi * (Ii + threshold slv)) = 0"
    by (rule np_exp_underflow)
  then show ?thesis
    by (simp add: survival_def np_exp_0)
qed

lemma survival_at_bot:
  assumes dt: "0 < slv_dt slv"
    and x: "LIM k F. mi k * (Ii k + threshold slv) :> at_bot"
  shows "((\<lambda>k. survival slv (mi k) (Ii k)) \<longlongrightarrow> 0) F"
proof -
  define Z where "Z = min 0 (1 - 1075 * ln 2 / slv_dt slv)"
  from x have ev: "eventually (\<lambda>k. mi k * (Ii k + threshold slv) < Z) F"
    by (simp add: filterlim_at_bot_dense)
  have "survival slv (mi k) (Ii k) = 0" if lt: "mi k * (Ii k + threshold slv) < Z" for k
  proof -
    let ?x = "mi k * (Ii k + threshold slv)"
    from lt have neg: "?x < 0" and far: "?x < 1 - 1075 * ln 2 / slv_dt slv"
      by (simp_all add: Z_def)
    have "exp_underflow \<le> - ?x"
      using neg exp_underflow_neg by simp
    then have inner: "np_exp (- ?x) = exp (- ?x)"
      by (rule np_exp_exp)
    from far have "1075 * ln 2 / slv_dt slv < 1 + (- ?x)" by simp
    also have "\<dots> \<le> exp (- ?x)" by (rule exp_ge_add_one_self)
    finally have "1075 * ln 2 < slv_dt slv * exp (- ?x)"
      using dt by (simp add: pos_divide_less_eq mult.commute)
    then show ?thesis
      using inner by (intro survival_zero) simp
  qed
  with ev have "eventually (\<lambda>k. survival slv (mi k) (Ii k) = 0) F"
    by (rule eventually_mono)
  then show ?thesis by (rule tendsto_eventually)
qed

lemma survival_at_top:
  assumes x: "LIM k F. mi k * (Ii k + threshold slv) :> at_top"
  shows "((\<lambda>k. survival slv (mi k) (Ii k)) \<longlongrightarrow> 1) F"
proof -
  from x have "eventually (\<lambda>k. 1075 * ln 2 < mi k * (Ii k + threshold slv)) F"
    by (simp add: filterlim_at_top_dense)
  then have "eventually (\<lambda>k. survival slv (mi k) (Ii k) = 1) F"
    by (rule eventually_mono) (rule survival_one)
  then show ?thesis by (rule tendsto_eventually)
qed

text \<open>
  A finite input at which the survival value is 0: \<open>dt = 1\<close> and
  \<open>m\<^sub>i * (I\<^sub>i + threshold) = -11\<close>, since \<open>exp 11\<close> is above 2048.
\<close>

lemma underflow_at_11: "1075 * ln 2 < np_exp 11"
proof -
  have "ln (2::real) \<le> 2 - 1" by (rule ln_le_minus_one) simp
  then have "1075 * ln (2::real) \<le> 1075" by simp
  also have "(1075::real) < 2 ^ 11" by simp
  also have "(2::real) ^ 11 \<le> exp 1 ^ 11"
    using exp_ge_add_one_self [of 1] by (intro power_mono) simp_all
  also have "exp (1::real) ^ 11 = exp 11"
    using exp_of_nat_mult [of 11 "1::real"] by simp
  also have "exp (11::real) = np_exp 11"
    using exp_underflow_neg by (simp add: np_exp_def)
  finally show ?thesis .
qed

text \<open>
  Away from a tie the update keeps a spin that is +1 or -1 at +1 or -1: it flips when the
  draw is above the survival value and keeps its sign when the draw is below. At a tie \<^verbatim>\<open>np.sign\<close>
  gives 0 and the spin becomes 0; the same happens to an initial spin whose draw is 0.5.
\<close>

lemma update_flip:
  assumes "m = 1 \<or> m = - 1"
  shows "m * np_sign (s - v) = - m \<longleftrightarrow> s < v"
    and "m * np_sign (s - v) = m \<longleftrightarrow> v < s"
    and "m * np_sign (s - v) = 0 \<longleftrightarrow> v = s"
  using assms by (auto simp: np_sign_def)

lemma init_pm1: "u \<noteq> 1 / 2 \<Longrightarrow> np_sign (0.5 - u) = 1 \<or> np_sign (0.5 - u) = - 1"
  by (auto simp: np_sign_def)

subsection \<open>A run on a coupled pair\<close>

text \<open>
  Two units coupled with weight 1, no bias, one step, every draw 0: both units start at
  +1, each gets current 1 from the other, both survive, and the energy is 1.
\<close>

lemmas solve_unfold = solve_def init_spins_def random_def np_sign_def body_def step_def
      input_currents_def input_current_def getitem_def np_dot_def update_spins_def
      survivals_def survival_def threshold_def energy_def np_dot_vm_def ncols_def

lemma solve_example:
  "solve \<lparr>slv_Nt = 1, slv_dt = 0, slv_i0 = 1, slv_expected_mean = 0\<rparr>
         \<lparr>circ_n_pbits = 2, circ_J = [[0, 1], [1, 0]], circ_h = [0, 0]\<rparr> (sconst 0)
     = Inr (([[1, 1]], [[1, 1]], [1]), sconst 0)"
  by (simp add: solve_unfold np_exp_0 upt_rec [of 0] upt_rec [of 1] upt_rec [of "Suc 0"] upt_rec [of 2])

section \<open>Claims about the solver\<close>

text \<open>
  C1. For a circuit with an n by n matrix \<open>J\<close> and a length-n vector \<open>h\<close>, \<^verbatim>\<open>solve\<close>
  returns, and for every step \<open>t < Nt\<close> the recorded \<open>I_history[t]\<close> holds for every unit
  \<open>i\<close> the value \<open>i0 * (\<Sum>j. m[j] * J[i][j] + h[i])\<close>, where \<open>m\<close> is the spin vector step
  \<open>t\<close> starts from (the initial vector for \<open>t = 0\<close>, the recorded \<open>m_history[t-1]\<close>
  otherwise): one snapshot for all units.
\<close>

theorem input_currents_recorded:
  assumes "wf_circuit c" and "t < slv_Nt slv"
  shows "\<exists>aI am E g'. solve slv c g = Inr ((aI, am, E), g') \<and>
           aI ! t = map (\<lambda>i. slv_i0 slv *
                          ((\<Sum>j<circ_n_pbits c. pre_spins c g am t ! j * circ_J c ! i ! j)
                           + circ_h c ! i))
                        [0..<circ_n_pbits c]"
proof -
  from solve_total [OF assms(1)] obtain aI am E g'
    where s: "solve slv c g = Inr ((aI, am, E), g')" by blast
  from solve_recorded(5) [OF s assms(2)]
  have "input_currents slv c (pre_spins c g am t) = Inr (aI ! t)"
    by (rule step_currents)
  moreover have "length (pre_spins c g am t) = circ_n_pbits c"
    using s assms(2) by (rule pre_spins_len)
  ultimately have "aI ! t = map (\<lambda>i. slv_i0 slv *
        ((\<Sum>j<circ_n_pbits c. pre_spins c g am t ! j * circ_J c ! i ! j) + circ_h c ! i))
      [0..<circ_n_pbits c]"
    using input_currents_wf [OF assms(1), of "pre_spins c g am t" slv] by simp
  with s show ?thesis by blast
qed

theorem input_currents_recorded_witness:
  "wf_circuit \<lparr>circ_n_pbits = 2, circ_J = [[0, 1], [1, 0]], circ_h = [0, 0]\<rparr> \<and>
   (0::nat) < slv_Nt \<lparr>slv_Nt = 1, slv_dt = 0, slv_i0 = 1, slv_expected_mean = 0\<rparr> \<and>
   (\<exists>aI am E g'.
      solve \<lparr>slv_Nt = 1, slv_dt = 0, slv_i0 = 1, slv_expected_mean = 0\<rparr>
            \<lparr>circ_n_pbits = 2, circ_J = [[0, 1], [1, 0]], circ_h = [0, 0]\<rparr> (sconst 0)
        = Inr ((aI, am, E), g') \<and>
      aI ! 0 = [1, 1])"
proof -
  let ?c = "\<lparr>circ_n_pbits = 2, circ_J = [[0, 1], [1, 0]], circ_h = [0, 0]\<rparr>"
  let ?slv = "\<lparr>slv_Nt = 1, slv_dt = 0, slv_i0 = 1, slv_expected_mean = 0\<rparr>"
  have wf: "wf_circuit ?c" by (simp add: wf_circuit_def)
  have lt: "(0::nat) < slv_Nt ?slv" by simp
  have m0: "pre_spins ?c (sconst 0) am 0 = [1, 1]" for am
    by (simp add: pre_spins_def init_spins_eq np_sign_def upt_rec [of 0] upt_rec [of 1] upt_rec [of "Suc 0"] upt_rec [of 2])
  have sums: "{..<2::nat} = {0, 1}" by auto
  from input_currents_recorded [OF wf lt, of "sconst 0"] show ?thesis
    using wf lt by (simp add: m0 sums upt_rec [of 0] upt_rec [of 1] upt_rec [of "Suc 0"] upt_rec [of 2])
qed

text \<open>
  C2, as the code has it. With \<open>dt > 0\<close> and \<open>-1 < expected_mean < 1\<close>, the survival value
  of a unit is \<open>exp (- dt * exp (- m\<^sub>i * (I\<^sub>i + artanh expected_mean)))\<close> with the float64
  exponential, the threshold being the same at every step. It lies in the closed interval
  \<open>[0, 1]\<close>: it is exactly 0 once \<open>dt\<close> times the inner exponential exceeds \<open>1075 * ln 2\<close>,
  which finite inputs reach. Along any family of inputs on which
  \<open>m\<^sub>i * (I\<^sub>i + threshold)\<close> tends to minus infinity it tends to 0, and to 1 where the
  product tends to plus infinity. At every step \<open>t\<close> of a run it is this value, computed
  from the spins the step starts from and the recorded currents, that the draw of unit
  \<open>i\<close> is compared with.
\<close>

theorem survival_saturates:
  assumes "0 < slv_dt slv"
    and "- 1 < slv_expected_mean slv" and "slv_expected_mean slv < 1"
  shows "survival slv mi Ii
           = np_exp (- slv_dt slv * np_exp (- (mi * (Ii + artanh (slv_expected_mean slv)))))
     \<and> 0 \<le> survival slv mi Ii \<and> survival slv mi Ii \<le> 1
     \<and> (1075 * ln 2
           < slv_dt slv * np_exp (- (mi * (Ii + artanh (slv_expected_mean slv)))) \<longrightarrow>
         survival slv mi Ii = 0)
     \<and> ((LIM k F. x k * (y k + artanh (slv_expected_mean slv)) :> at_bot) \<longrightarrow>
           ((\<lambda>k. survival slv (x k) (y k)) \<longlongrightarrow> 0) F)
     \<and> ((LIM k F. x k * (y k + artanh (slv_expected_mean slv)) :> at_top) \<longrightarrow>
           ((\<lambda>k. survival slv (x k) (y k)) \<longlongrightarrow> 1) F)
     \<and> (wf_circuit c \<and> t < slv_Nt slv \<longrightarrow>
           (\<exists>aI am E g'. solve slv c g = Inr ((aI, am, E), g') \<and>
              am ! t = map (\<lambda>i. pre_spins c g am t ! i *
                  np_sign (np_exp (- slv_dt slv * np_exp (- (pre_spins c g am t ! i *
                                (aI ! t ! i + artanh (slv_expected_mean slv)))))
                           - g !! (circ_n_pbits c + t * circ_n_pbits c + i)))
                [0..<circ_n_pbits c]))"
proof -
  have dt: "0 \<le> slv_dt slv" using assms(1) by simp
  have r: "0 \<le> survival slv mi Ii \<and> survival slv mi Ii \<le> 1"
    using survival_range [OF dt, of mi Ii] by simp
  have z: "1075 * ln 2
           < slv_dt slv * np_exp (- (mi * (Ii + artanh (slv_expected_mean slv)))) \<longrightarrow>
         survival slv mi Ii = 0"
    using survival_zero [of slv mi Ii] by (simp add: threshold_def)
  have b: "(LIM k F. x k * (y k + artanh (slv_expected_mean slv)) :> at_bot) \<longrightarrow>
           ((\<lambda>k. survival slv (x k) (y k)) \<longlongrightarrow> 0) F"
    using survival_at_bot [OF assms(1), where F = F and mi = x and Ii = y]
    by (simp add: threshold_def)
  have t: "(LIM k F. x k * (y k + artanh (slv_expected_mean slv)) :> at_top) \<longrightarrow>
           ((\<lambda>k. survival slv (x k) (y k)) \<longlongrightarrow> 1) F"
    using survival_at_top [where F = F and mi = x and Ii = y and slv = slv]
    by (simp add: threshold_def)
  have u: "wf_circuit c \<and> t < slv_Nt slv \<longrightarrow>
           (\<exists>aI am E g'. solve slv c g = Inr ((aI, am, E), g') \<and>
              am ! t = map (\<lambda>i. pre_spins c g am t ! i *
                  np_sign (np_exp (- slv_dt slv * np_exp (- (pre_spins c g am t ! i *
                                (aI ! t ! i + artanh (slv_expected_mean slv)))))
                           - g !! (circ_n_pbits c + t * circ_n_pbits c + i)))
                [0..<circ_n_pbits c])"
  proof
    assume a: "wf_circuit c \<and> t < slv_Nt slv"
    from solve_total [of c slv g] a obtain aI am E g'
      where s: "solve slv c g = Inr ((aI, am, E), g')" by blast
    from solve_spins_draws [OF s] a have "am ! t = map (\<lambda>i. pre_spins c g am t ! i *
                  np_sign (np_exp (- slv_dt slv * np_exp (- (pre_spins c g am t ! i *
                                (aI ! t ! i + artanh (slv_expected_mean slv)))))
                           - g !! (circ_n_pbits c + t * circ_n_pbits c + i)))
                [0..<circ_n_pbits c]"
      by (simp add: survival_eq)
    with s show "\<exists>aI am E g'. solve slv c g = Inr ((aI, am, E), g') \<and>
              am ! t = map (\<lambda>i. pre_spins c g am t ! i *
                  np_sign (np_exp (- slv_dt slv * np_exp (- (pre_spins c g am t ! i *
                                (aI ! t ! i + artanh (slv_expected_mean slv)))))
                           - g !! (circ_n_pbits c + t * circ_n_pbits c + i)))
                [0..<circ_n_pbits c]"
      by blast
  qed
  from survival_eq [of slv mi Ii] r z b t u show ?thesis by blast
qed

theorem survival_saturates_witness:
  "0 < slv_dt \<lparr>slv_Nt = 1, slv_dt = 1, slv_i0 = 1, slv_expected_mean = 0\<rparr> \<and>
   - 1 < slv_expected_mean \<lparr>slv_Nt = 1, slv_dt = 1, slv_i0 = 1, slv_expected_mean = 0\<rparr> \<and>
   slv_expected_mean \<lparr>slv_Nt = 1, slv_dt = 1, slv_i0 = 1, slv_expected_mean = 0\<rparr> < 1 \<and>
   0 \<le> survival \<lparr>slv_Nt = 1, slv_dt = 1, slv_i0 = 1, slv_expected_mean = 0\<rparr> 1 (- 11) \<and>
   survival \<lparr>slv_Nt = 1, slv_dt = 1, slv_i0 = 1, slv_expected_mean = 0\<rparr> 1 (- 11) \<le> 1 \<and>
   1075 * ln 2 < 1 * np_exp (- (1 * (- 11 + artanh 0))) \<and>
   survival \<lparr>slv_Nt = 1, slv_dt = 1, slv_i0 = 1, slv_expected_mean = 0\<rparr> 1 (- 11) = 0 \<and>
   (LIM k at_bot. 1 * (k + artanh 0) :> (at_bot :: real filter)) \<and>
   ((\<lambda>k. survival \<lparr>slv_Nt = 1, slv_dt = 1, slv_i0 = 1, slv_expected_mean = 0\<rparr> 1 k)
      \<longlongrightarrow> 0) at_bot \<and>
   (LIM k at_top. 1 * (k + artanh 0) :> (at_top :: real filter)) \<and>
   ((\<lambda>k. survival \<lparr>slv_Nt = 1, slv_dt = 1, slv_i0 = 1, slv_expected_mean = 0\<rparr> 1 k)
      \<longlongrightarrow> 1) at_top \<and>
   wf_circuit \<lparr>circ_n_pbits = 2, circ_J = [[0, 1], [1, 0]], circ_h = [0, 0]\<rparr> \<and>
   (0::nat) < slv_Nt \<lparr>slv_Nt = 1, slv_dt = 1, slv_i0 = 1, slv_expected_mean = 0\<rparr> \<and>
   (\<exists>aI am E g'.
      solve \<lparr>slv_Nt = 1, slv_dt = 1, slv_i0 = 1, slv_expected_mean = 0\<rparr>
            \<lparr>circ_n_pbits = 2, circ_J = [[0, 1], [1, 0]], circ_h = [0, 0]\<rparr> (sconst 0)
        = Inr ((aI, am, E), g') \<and>
      length (am ! 0) = 2)"
proof -
  let ?c = "\<lparr>circ_n_pbits = 2, circ_J = [[0, 1], [1, 0]], circ_h = [0, 0]\<rparr>"
  let ?slv = "\<lparr>slv_Nt = 1, slv_dt = 1, slv_i0 = 1, slv_expected_mean = 0\<rparr>"
  have dt: "0 < slv_dt ?slv" by simp
  have lo: "- 1 < slv_expected_mean ?slv" by simp
  have hi: "slv_expected_mean ?slv < 1" by simp
  have wf: "wf_circuit ?c" by (simp add: wf_circuit_def)
  have lt: "(0::nat) < slv_Nt ?slv" by simp
  have uf: "1075 * ln 2 < 1 * np_exp (- (1 * (- 11 + artanh 0)))"
    using underflow_at_11 by simp
  have bot: "LIM k at_bot. 1 * (k + artanh 0) :> (at_bot :: real filter)"
    by (simp add: filterlim_ident)
  have top: "LIM k at_top. 1 * (k + artanh 0) :> (at_top :: real filter)"
    by (simp add: filterlim_ident)
  note A = survival_saturates [OF dt lo hi, where mi = 1 and Ii = "- 11" and F = at_bot
      and x = "\<lambda>k. 1" and y = "\<lambda>k. k" and c = ?c and t = 0 and g = "sconst 0"]
  note B = survival_saturates [OF dt lo hi, where mi = 1 and Ii = "- 11" and F = at_top
      and x = "\<lambda>k. 1" and y = "\<lambda>k. k" and c = ?c and t = 0 and g = "sconst 0"]
  have r: "0 \<le> survival ?slv 1 (- 11) \<and> survival ?slv 1 (- 11) \<le> 1"
    using A by blast
  have z: "survival ?slv 1 (- 11) = 0"
    using A uf by simp
  have l0: "((\<lambda>k. survival ?slv 1 k) \<longlongrightarrow> 0) at_bot"
    using A bot by simp
  have l1: "((\<lambda>k. survival ?slv 1 k) \<longlongrightarrow> 1) at_top"
    using B top by simp
  from A wf lt obtain aI am E g' where
    s: "solve ?slv ?c (sconst 0) = Inr ((aI, am, E), g')"
    and u: "am ! 0 = map (\<lambda>i. pre_spins ?c (sconst 0) am 0 ! i *
                  np_sign (np_exp (- slv_dt ?slv * np_exp (- (pre_spins ?c (sconst 0) am 0 ! i *
                                (aI ! 0 ! i + artanh (slv_expected_mean ?slv)))))
                           - sconst 0 !! (circ_n_pbits ?c + 0 * circ_n_pbits ?c + i)))
                [0..<circ_n_pbits ?c]"
    by blast
  from u have len: "length (am ! 0) = 2"
    by (simp only: length_map length_upt circuit.simps)
  have e: "\<exists>aI am E g'. solve ?slv ?c (sconst 0) = Inr ((aI, am, E), g') \<and> length (am ! 0) = 2"
    using s len by blast
  show ?thesis
    using dt lo hi r z uf l0 l1 bot top wf lt e by (intro conjI) simp_all
qed

text \<open>
  C2 as stated fails: the open lower end of \<open>(0, 1]\<close> is reached at a finite input. With
  \<open>dt = 1\<close>, \<open>expected_mean = 0\<close>, \<open>m\<^sub>i = 1\<close> and \<open>I\<^sub>i = -11\<close> the inner exponential is
  \<open>exp 11\<close>, about 59874, and the exponential of its negative underflows to 0.
\<close>

theorem survival_underflows_to_zero:
  "survival \<lparr>slv_Nt = 1, slv_dt = 1, slv_i0 = 1, slv_expected_mean = 0\<rparr> 1 (- 11) = 0"
  by (rule survival_zero) (use underflow_at_11 in \<open>simp add: threshold_def\<close>)

text \<open>
  C3. The update is \<open>m\<^sub>i * sign (s\<^sub>i - v\<^sub>i)\<close> on the spins the step starts from. The claim
  that the sign is preserved whenever the draw is not above \<open>s\<^sub>i\<close> fails at a tie: with
  \<open>dt = ln 2\<close>, no coupling, no bias and \<open>expected_mean = 0\<close> the survival value is 1/2; the
  unit starts at +1 (first draw 0), its second draw is 1/2, and the recorded spin is 0,
  neither flipped nor preserved.
\<close>

theorem tie_in_update:
  "solve \<lparr>slv_Nt = 1, slv_dt = ln 2, slv_i0 = 0, slv_expected_mean = 0\<rparr>
         \<lparr>circ_n_pbits = 1, circ_J = [[0]], circ_h = [0]\<rparr> (0 ## sconst (1 / 2))
     = Inr (([[0]], [[0]], [0]), sconst (1 / 2))
   \<and> fst (init_spins 1 (0 ## sconst (1 / 2))) = [1]
   \<and> survivals \<lparr>slv_Nt = 1, slv_dt = ln 2, slv_i0 = 0, slv_expected_mean = 0\<rparr> 1 [1] [0]
       = [1 / 2]"
  by (simp add: solve_unfold np_exp_0 np_exp_minus_ln2)

text \<open>
  C4. For every step \<open>t < Nt\<close> the recorded energy is
  \<open>i0 * (\<Sum>i. m\<^sub>i * h\<^sub>i + 0.5 * \<Sum>i. \<Sum>j. m\<^sub>i * J[i][j] * m\<^sub>j)\<close> on the spins recorded for
  step \<open>t\<close>, that is after the update; for one unit with \<open>J = [[0]]\<close> and \<open>h = [x]\<close> it is
  \<open>i0 * m_history[t][0] * x\<close>.
\<close>

theorem energy_recorded:
  assumes "t < slv_Nt slv"
  shows "(wf_circuit c \<longrightarrow>
           (\<exists>aI am E g'. solve slv c g = Inr ((aI, am, E), g') \<and>
              E ! t = slv_i0 slv *
                ((\<Sum>i<circ_n_pbits c. am ! t ! i * circ_h c ! i)
                 + 0.5 * (\<Sum>i<circ_n_pbits c. \<Sum>j<circ_n_pbits c.
                            am ! t ! i * circ_J c ! i ! j * am ! t ! j))))
       \<and> (\<exists>aI am E g'.
            solve slv \<lparr>circ_n_pbits = 1, circ_J = [[0]], circ_h = [x]\<rparr> g = Inr ((aI, am, E), g') \<and>
            E ! t = slv_i0 slv * (am ! t ! 0) * x)"
proof -
  have gen: "\<exists>aI am E g'. solve slv c g = Inr ((aI, am, E), g') \<and>
              E ! t = slv_i0 slv *
                ((\<Sum>i<circ_n_pbits c. am ! t ! i * circ_h c ! i)
                 + 0.5 * (\<Sum>i<circ_n_pbits c. \<Sum>j<circ_n_pbits c.
                            am ! t ! i * circ_J c ! i ! j * am ! t ! j))"
    if wf: "wf_circuit c" for c
  proof -
    from solve_total [OF wf] obtain aI am E g'
      where s: "solve slv c g = Inr ((aI, am, E), g')" by blast
    from solve_recorded(5) [OF s assms] have "energy slv c (am ! t) = Inr (E ! t)"
      by (rule step_energy)
    moreover have "length (am ! t) = circ_n_pbits c"
      using s assms by (rule post_spins_len)
    ultimately have "E ! t = slv_i0 slv *
                ((\<Sum>i<circ_n_pbits c. am ! t ! i * circ_h c ! i)
                 + 0.5 * (\<Sum>i<circ_n_pbits c. \<Sum>j<circ_n_pbits c.
                            am ! t ! i * circ_J c ! i ! j * am ! t ! j))"
      using energy_wf [OF wf, of "am ! t" slv] by simp
    with s show ?thesis by blast
  qed
  let ?c1 = "\<lparr>circ_n_pbits = 1, circ_J = [[0]], circ_h = [x]\<rparr>"
  have wf1: "wf_circuit ?c1" by (simp add: wf_circuit_def)
  from gen [OF wf1] have "\<exists>aI am E g'. solve slv ?c1 g = Inr ((aI, am, E), g') \<and>
            E ! t = slv_i0 slv * (am ! t ! 0) * x"
    by (simp add: mult.assoc)
  with gen show ?thesis by blast
qed

theorem energy_recorded_witness:
  "(0::nat) < slv_Nt \<lparr>slv_Nt = 1, slv_dt = 0, slv_i0 = 2, slv_expected_mean = 0\<rparr> \<and>
   wf_circuit \<lparr>circ_n_pbits = 1, circ_J = [[0]], circ_h = [3]\<rparr> \<and>
   (\<exists>aI am E g'.
      solve \<lparr>slv_Nt = 1, slv_dt = 0, slv_i0 = 2, slv_expected_mean = 0\<rparr>
            \<lparr>circ_n_pbits = 1, circ_J = [[0]], circ_h = [3]\<rparr> (sconst 0)
        = Inr ((aI, am, E), g') \<and>
      E ! 0 = 2 * (am ! 0 ! 0) * 3)"
proof -
  let ?slv = "\<lparr>slv_Nt = 1, slv_dt = 0, slv_i0 = 2, slv_expected_mean = 0\<rparr>"
  have lt: "(0::nat) < slv_Nt ?slv" by simp
  have wf: "wf_circuit \<lparr>circ_n_pbits = 1, circ_J = [[0]], circ_h = [3]\<rparr>"
    by (simp add: wf_circuit_def)
  from energy_recorded [OF lt, of "\<lparr>circ_n_pbits = 1, circ_J = [[0]], circ_h = [3]\<rparr>" "sconst 0" 3]
  show ?thesis using lt wf by simp
qed

text \<open>
  C5. The claim that every recorded spin is +1 or -1 fails when a draw ties: with every
  draw equal to 0.5 the initial spin is \<open>sign 0 = 0\<close>, and it stays 0 at every step, so the
  history of a one-unit run of two steps is 0 throughout.
\<close>

theorem tie_in_initial_spins:
  "solve \<lparr>slv_Nt = 2, slv_dt = 1, slv_i0 = 1, slv_expected_mean = 0\<rparr>
         \<lparr>circ_n_pbits = 1, circ_J = [[0]], circ_h = [0]\<rparr> (sconst (1 / 2))
     = Inr (([[0], [0]], [[0], [0]], [0, 0]), sconst (1 / 2))"
  by (simp add: solve_unfold upt_rec [of 0] upt_rec [of 1] upt_rec [of "Suc 0"] upt_rec [of 2]
      eval_nat_numeral)

text \<open>
  C6. On a circuit of the right shape, \<^verbatim>\<open>solve\<close> returns and leaves the generator advanced
  by exactly \<open>n + Nt * n\<close> draws; a second run whose generator gives the same first
  \<open>n + Nt * n\<close> draws returns the same three histories; the initial spin of unit \<open>i\<close> is made
  from draw \<open>i\<close>, after which the generator has advanced by \<open>n\<close>; and the update of unit
  \<open>i\<close> at step \<open>t\<close> uses draw \<open>n + t * n + i\<close>.
\<close>

theorem random_stream_replay:
  assumes "wf_circuit c"
    and "stake (circ_n_pbits c + slv_Nt slv * circ_n_pbits c) g2
       = stake (circ_n_pbits c + slv_Nt slv * circ_n_pbits c) g"
  shows "\<exists>aI am E.
      solve slv c g
        = Inr ((aI, am, E), sdrop (circ_n_pbits c + slv_Nt slv * circ_n_pbits c) g) \<and>
      solve slv c g2
        = Inr ((aI, am, E), sdrop (circ_n_pbits c + slv_Nt slv * circ_n_pbits c) g2) \<and>
      init_spins (circ_n_pbits c) g
        = (map (\<lambda>i. np_sign (0.5 - g !! i)) [0..<circ_n_pbits c], sdrop (circ_n_pbits c) g) \<and>
      (t < slv_Nt slv \<longrightarrow>
         am ! t = map (\<lambda>i. pre_spins c g am t ! i *
                         np_sign (survival slv (pre_spins c g am t ! i) (aI ! t ! i)
                                  - g !! (circ_n_pbits c + t * circ_n_pbits c + i)))
                      [0..<circ_n_pbits c])"
proof -
  let ?K = "circ_n_pbits c + slv_Nt slv * circ_n_pbits c"
  from solve_total [OF assms(1)] obtain aI am E
    where s1: "solve slv c g = Inr ((aI, am, E), sdrop ?K g)" by blast
  from solve_total [OF assms(1)] obtain aI2 am2 E2
    where s2: "solve slv c g2 = Inr ((aI2, am2, E2), sdrop ?K g2)" by blast
  from solve_prefix [OF s1 s2 assms(2)] s2
  have s2': "solve slv c g2 = Inr ((aI, am, E), sdrop ?K g2)" by simp
  have "t < slv_Nt slv \<longrightarrow>
         am ! t = map (\<lambda>i. pre_spins c g am t ! i *
                         np_sign (survival slv (pre_spins c g am t ! i) (aI ! t ! i)
                                  - g !! (circ_n_pbits c + t * circ_n_pbits c + i)))
                      [0..<circ_n_pbits c]"
    using solve_spins_draws [OF s1] by blast
  with s1 s2' init_spins_eq [of "circ_n_pbits c" g] show ?thesis by blast
qed

theorem random_stream_replay_witness:
  "wf_circuit \<lparr>circ_n_pbits = 2, circ_J = [[0, 1], [1, 0]], circ_h = [0, 0]\<rparr> \<and>
   stake 4 (0 ## 0 ## 0 ## 0 ## sconst (1::real)) = stake 4 (sconst 0) \<and>
   (0::nat) < slv_Nt \<lparr>slv_Nt = 1, slv_dt = 0, slv_i0 = 1, slv_expected_mean = 0\<rparr> \<and>
   (\<exists>aI am E.
      solve \<lparr>slv_Nt = 1, slv_dt = 0, slv_i0 = 1, slv_expected_mean = 0\<rparr>
            \<lparr>circ_n_pbits = 2, circ_J = [[0, 1], [1, 0]], circ_h = [0, 0]\<rparr> (sconst 0)
        = Inr ((aI, am, E), sdrop 4 (sconst 0)) \<and>
      solve \<lparr>slv_Nt = 1, slv_dt = 0, slv_i0 = 1, slv_expected_mean = 0\<rparr>
            \<lparr>circ_n_pbits = 2, circ_J = [[0, 1], [1, 0]], circ_h = [0, 0]\<rparr>
            (0 ## 0 ## 0 ## 0 ## sconst 1)
        = Inr ((aI, am, E), sconst 1) \<and>
      am ! 0 = [1, 1])"
proof -
  let ?c = "\<lparr>circ_n_pbits = 2, circ_J = [[0, 1], [1, 0]], circ_h = [0, 0]\<rparr>"
  let ?slv = "\<lparr>slv_Nt = 1, slv_dt = 0, slv_i0 = 1, slv_expected_mean = 0\<rparr>"
  let ?g2 = "0 ## 0 ## 0 ## 0 ## sconst (1::real)"
  have wf: "wf_circuit ?c" by (simp add: wf_circuit_def)
  have st: "stake 4 ?g2 = stake 4 (sconst 0)"
    by (simp add: eval_nat_numeral)
  have pre: "stake (circ_n_pbits ?c + slv_Nt ?slv * circ_n_pbits ?c) ?g2
           = stake (circ_n_pbits ?c + slv_Nt ?slv * circ_n_pbits ?c) (sconst 0)"
    using st by simp
  have dr: "sdrop 4 ?g2 = sconst 1"
    by (simp add: eval_nat_numeral)
  have m0: "pre_spins ?c (sconst 0) am 0 = [1, 1]" for am
    by (simp add: pre_spins_def init_spins_eq np_sign_def upt_rec [of 0] upt_rec [of 1] upt_rec [of "Suc 0"] upt_rec [of 2])
  from random_stream_replay [OF wf pre, where t = 0] obtain aI am E where
    a: "solve ?slv ?c (sconst 0) = Inr ((aI, am, E), sdrop 4 (sconst 0))"
    and b: "solve ?slv ?c ?g2 = Inr ((aI, am, E), sdrop 4 ?g2)"
    and c: "am ! 0 = map (\<lambda>i. pre_spins ?c (sconst 0) am 0 ! i *
                         np_sign (survival ?slv (pre_spins ?c (sconst 0) am 0 ! i) (aI ! 0 ! i)
                                  - sconst 0 !! (2 + 0 * 2 + i))) [0..<2]"
    by auto
  from c have "am ! 0 = [1, 1]"
    by (simp add: m0 survival_def np_exp_0 np_sign_def upt_rec [of 0] upt_rec [of 1] upt_rec [of "Suc 0"] upt_rec [of 2])
  with a b dr wf st show ?thesis by auto
qed

section \<open>Facts about the decorators\<close>

subsection \<open>Ports\<close>

lemma port_attrs_keys: "set (map fst (port_attrs d)) \<subseteq> set (map fst d)"
  by (induction d rule: port_attrs.induct) auto

lemma port_attrs_distinct:
  "distinct (map fst d) \<Longrightarrow> distinct (map fst (port_attrs d))"
proof (induction d rule: port_attrs.induct)
  case (2 name p rest)
  then show ?case using port_attrs_keys [of rest] by auto
qed auto

lemma port_attrs_mem:
  "(name, p) \<in> set (port_attrs d) \<Longrightarrow> (name, PortV p) \<in> set d"
  by (induction d rule: port_attrs.induct) auto

lemma set_ports_other:
  "name \<notin> fst ` set pa \<Longrightarrow> map_of (set_ports idx pa inst) name = map_of inst name"
  unfolding set_ports_def
  by (induction pa arbitrary: inst) (auto simp: update_conv')

lemma set_ports_port:
  assumes "distinct (map fst pa)" "(name, p) \<in> set pa"
  shows "map_of (set_ports idx pa inst) name
       = Some (PortV (Port (port_name p) (map_of idx name)))"
  using assms
proof (induction pa arbitrary: inst)
  case Nil
  then show ?case by simp
next
  case (Cons a pa)
  obtain k q where a: "a = (k, q)" by (cases a)
  let ?inst = "AList.update k (PortV (Port (port_name q) (map_of idx k))) inst"
  have unf: "set_ports idx (a # pa) inst = set_ports idx pa ?inst"
    by (simp add: set_ports_def a)
  show ?case
  proof (cases "(name, p) \<in> set pa")
    case True
    with Cons show ?thesis by (simp add: unf)
  next
    case False
    with Cons.prems a have eq: "name = k" "p = q" by auto
    with Cons.prems a have "name \<notin> fst ` set pa" by auto
    then show ?thesis
      by (simp add: unf set_ports_other eq update_conv')
  qed
qed

lemma port_indices_nth:
  assumes "distinct (map fst pa)" "k < length pa"
  shows "map_of (zip (map fst pa) [0..<length pa]) (fst (pa ! k)) = Some k"
  using map_of_zip_nth [of "map fst pa" "[0..<length pa]" k] assms by simp

subsection \<open>Shapes\<close>

lemma supplied_ok_no_port:
  assumes "distinct (map fst (cls_dict cls))" "supplied_ok cls name required"
  shows "name \<notin> fst ` set (port_attrs (cls_dict cls))"
proof
  assume "name \<in> fst ` set (port_attrs (cls_dict cls))"
  then obtain p where "(name, p) \<in> set (port_attrs (cls_dict cls))" by auto
  then have "(name, PortV p) \<in> set (cls_dict cls)" by (rule port_attrs_mem)
  with assms(1) have "map_of (cls_dict cls) name = Some (PortV p)" by simp
  with assms(2) show False by (simp add: supplied_ok_def)
qed

lemma supplied_ok_check:
  "supplied_ok cls name required \<Longrightarrow> check_shape cls name required = Inr ()"
  by (auto simp: supplied_ok_def check_shape_def split: option.splits pyval.splits)

lemma two_port_pcircuit:
  "port_attrs extra = [] \<Longrightarrow> pcircuit 2 (two_port_class extra) = Inr (two_port_decorated extra)"
  by (simp add: pcircuit_def Let_def two_port_class_def two_port_decorated_def
      upt_rec [of 0] upt_rec [of 1] upt_rec [of "Suc 0"] upt_rec [of 2])

subsection \<open>Registration\<close>

lemma registrations_append:
  "registrations register_instance (xs @ ys) ctx
     = registrations register_instance ys (registrations register_instance xs ctx)"
  by (simp add: registrations_def)

lemma registrations_record_call: "registrations record_call vs calls = calls @ vs"
  unfolding registrations_def
  by (induction vs arbitrary: calls) (simp_all add: record_call_def)

lemma register_attrs_ok:
  assumes "map_of self ''_context'' = Some (CtxV a)"
  shows "a < length hp \<Longrightarrow>
     register_attrs register_instance self items hp
       = Inr (hp[a := registrations register_instance (circuits_of items) (hp ! a)])"
proof (induction items arbitrary: hp)
  case Nil
  then show ?case by (simp add: circuits_of_def registrations_def)
next
  case (Cons item items)
  obtain k v where item: "item = (k, v)" by (cases item)
  show ?case
  proof (cases "hasattr v ''n_pbits''")
    case True
    let ?hp = "hp[a := register_instance (hp ! a) v]"
    have "a < length ?hp" using Cons.prems by simp
    from Cons.IH [OF this] show ?thesis
      using True assms Cons.prems by (simp add: item circuits_of_def registrations_def)
  next
    case False
    with Cons show ?thesis by (simp add: item circuits_of_def)
  qed
qed

lemma new_instance_ok:
  assumes self: "self = mod_original_init mc args [(''_context'', CtxV (mod_context mc))]"
    and ctx: "map_of self ''_context'' = Some (CtxV a)" and a: "a < length hp"
  shows "new_instance register_instance mc args hp
       = Inr (self, hp[a := registrations register_instance (circuits_of self) (hp ! a)])"
  using register_attrs_ok [OF ctx a, of register_instance self] self
  by (simp add: new_instance_def Let_def)

section \<open>Claims about the decorators\<close>

text \<open>
  C7, as the code has it. For a decorated class, \<^verbatim>\<open>__new__\<close> fails with the shape error
  when the class supplies an \<^verbatim>\<open>h\<close> whose shape is not \<open>(n, 1)\<close>, and when \<^verbatim>\<open>h\<close> is
  acceptable and the class supplies a \<^verbatim>\<open>J\<close> whose shape is not \<open>(n, n)\<close>; when each of
  the two is absent or of the required shape, the instance is made, with the supplied
  array, or zeros of shape \<open>(n, 1)\<close> and \<open>(n, n)\<close>, as its \<^verbatim>\<open>h\<close> and \<^verbatim>\<open>J\<close>.
\<close>

theorem shapes_checked_at_construction:
  assumes "pcircuit n cls = Inr dc" and "distinct (map fst (cls_dict cls))"
  shows "(map_of (cls_dict cls) ''h'' = Some (ArrV a) \<and> map int (nd_shape a) \<noteq> [n, 1] \<longrightarrow>
            pc_new dc = Inl (ShapeMismatch ''h'' [n, 1] (nd_shape a)))
       \<and> (supplied_ok cls ''h'' [n, 1] \<and> map_of (cls_dict cls) ''J'' = Some (ArrV b)
            \<and> map int (nd_shape b) \<noteq> [n, n] \<longrightarrow>
            pc_new dc = Inl (ShapeMismatch ''J'' [n, n] (nd_shape b)))
       \<and> (supplied_ok cls ''h'' [n, 1] \<and> supplied_ok cls ''J'' [n, n] \<longrightarrow>
            (\<exists>inst. pc_new dc = Inr inst
               \<and> map_of inst ''h''
                   = Some (case map_of (cls_dict cls) ''h'' of
                             None \<Rightarrow> ArrV (np_zeros [nat n, 1]) | Some v \<Rightarrow> v)
               \<and> map_of inst ''J''
                   = Some (case map_of (cls_dict cls) ''J'' of
                             None \<Rightarrow> ArrV (np_zeros [nat n, nat n]) | Some v \<Rightarrow> v)))"
proof -
  from assms(1) have dc: "pc_cls dc = cls" "pc_n_pbits dc = n"
      "pc_port_attrs dc = port_attrs (cls_dict cls)"
    by (auto simp: pcircuit_def Let_def split: if_splits)
  have A: "pc_new dc = Inl (ShapeMismatch ''h'' [n, 1] (nd_shape a))"
    if "map_of (cls_dict cls) ''h'' = Some (ArrV a)" "map int (nd_shape a) \<noteq> [n, 1]"
    using that by (simp add: pc_new_def Let_def dc check_shape_def)
  have B: "pc_new dc = Inl (ShapeMismatch ''J'' [n, n] (nd_shape b))"
    if "supplied_ok cls ''h'' [n, 1]" "map_of (cls_dict cls) ''J'' = Some (ArrV b)"
      "map int (nd_shape b) \<noteq> [n, n]"
  proof -
    have "check_shape cls ''J'' [n, n] = Inl (ShapeMismatch ''J'' [n, n] (nd_shape b))"
      using that(2,3) by (simp add: check_shape_def)
    then show ?thesis
      using supplied_ok_check [OF that(1)] by (simp add: pc_new_def Let_def dc)
  qed
  have C: "\<exists>inst. pc_new dc = Inr inst
               \<and> map_of inst ''h''
                   = Some (case map_of (cls_dict cls) ''h'' of
                             None \<Rightarrow> ArrV (np_zeros [nat n, 1]) | Some v \<Rightarrow> v)
               \<and> map_of inst ''J''
                   = Some (case map_of (cls_dict cls) ''J'' of
                             None \<Rightarrow> ArrV (np_zeros [nat n, nat n]) | Some v \<Rightarrow> v)"
    if h: "supplied_ok cls ''h'' [n, 1]" and J: "supplied_ok cls ''J'' [n, n]"
  proof -
    let ?base = "[(''n_pbits'', IntV n),
                  (''h'', getattr_default cls ''h'' (ArrV (np_zeros [nat n, 1]))),
                  (''J'', getattr_default cls ''J'' (ArrV (np_zeros [nat n, nat n]))),
                  (''_connections'', DictV [])]"
    let ?inst = "set_ports (pc_port_indices dc) (port_attrs (cls_dict cls)) ?base"
    have new: "pc_new dc = Inr ?inst"
      using supplied_ok_check [OF h] supplied_ok_check [OF J]
      by (simp add: pc_new_def Let_def dc)
    have "map_of ?inst ''h'' = map_of ?base ''h''"
      by (rule set_ports_other) (rule supplied_ok_no_port [OF assms(2) h])
    then have h': "map_of ?inst ''h''
        = Some (case map_of (cls_dict cls) ''h'' of
                  None \<Rightarrow> ArrV (np_zeros [nat n, 1]) | Some v \<Rightarrow> v)"
      by (simp add: getattr_default_def split: option.splits)
    have "map_of ?inst ''J'' = map_of ?base ''J''"
      by (rule set_ports_other) (rule supplied_ok_no_port [OF assms(2) J])
    then have J': "map_of ?inst ''J''
        = Some (case map_of (cls_dict cls) ''J'' of
                  None \<Rightarrow> ArrV (np_zeros [nat n, nat n]) | Some v \<Rightarrow> v)"
      by (simp add: getattr_default_def split: option.splits)
    from new h' J' show ?thesis by blast
  qed
  from A B C show ?thesis by blast
qed

theorem shapes_checked_at_construction_witness:
  "pcircuit 2 (two_port_class [(''h'', ArrV (NDArray [2] [1, 1]))])
     = Inr (two_port_decorated [(''h'', ArrV (NDArray [2] [1, 1]))])
   \<and> distinct (map fst (cls_dict (two_port_class [(''h'', ArrV (NDArray [2] [1, 1]))])))
   \<and> map_of (cls_dict (two_port_class [(''h'', ArrV (NDArray [2] [1, 1]))])) ''h''
       = Some (ArrV (NDArray [2] [1, 1]))
   \<and> map int (nd_shape (NDArray [2] [1, 1])) \<noteq> [2, 1]
   \<and> pc_new (two_port_decorated [(''h'', ArrV (NDArray [2] [1, 1]))])
       = Inl (ShapeMismatch ''h'' [2, 1] [2])
   \<and> pcircuit 2 (two_port_class [(''J'', ArrV (np_zeros [2, 3]))])
       = Inr (two_port_decorated [(''J'', ArrV (np_zeros [2, 3]))])
   \<and> distinct (map fst (cls_dict (two_port_class [(''J'', ArrV (np_zeros [2, 3]))])))
   \<and> supplied_ok (two_port_class [(''J'', ArrV (np_zeros [2, 3]))]) ''h'' [2, 1]
   \<and> map_of (cls_dict (two_port_class [(''J'', ArrV (np_zeros [2, 3]))])) ''J''
       = Some (ArrV (np_zeros [2, 3]))
   \<and> map int (nd_shape (np_zeros [2, 3])) \<noteq> [2, 2]
   \<and> pc_new (two_port_decorated [(''J'', ArrV (np_zeros [2, 3]))])
       = Inl (ShapeMismatch ''J'' [2, 2] [2, 3])
   \<and> pcircuit 2 (two_port_class [(''h'', ArrV (NDArray [2, 1] [1, 1]))])
       = Inr (two_port_decorated [(''h'', ArrV (NDArray [2, 1] [1, 1]))])
   \<and> distinct (map fst (cls_dict (two_port_class [(''h'', ArrV (NDArray [2, 1] [1, 1]))])))
   \<and> supplied_ok (two_port_class [(''h'', ArrV (NDArray [2, 1] [1, 1]))]) ''h'' [2, 1]
   \<and> supplied_ok (two_port_class [(''h'', ArrV (NDArray [2, 1] [1, 1]))]) ''J'' [2, 2]
   \<and> (\<exists>inst. pc_new (two_port_decorated [(''h'', ArrV (NDArray [2, 1] [1, 1]))]) = Inr inst
         \<and> map_of inst ''h'' = Some (ArrV (NDArray [2, 1] [1, 1]))
         \<and> map_of inst ''J'' = Some (ArrV (np_zeros [2, 2])))"
proof -
  let ?x1 = "[(''h'', ArrV (NDArray [2] [1, 1]))]"
  let ?x2 = "[(''J'', ArrV (np_zeros [2, 3]))]"
  let ?x3 = "[(''h'', ArrV (NDArray [2, 1] [1, 1]))]"
  have p1: "pcircuit 2 (two_port_class ?x1) = Inr (two_port_decorated ?x1)"
    by (rule two_port_pcircuit) simp
  have p2: "pcircuit 2 (two_port_class ?x2) = Inr (two_port_decorated ?x2)"
    by (rule two_port_pcircuit) simp
  have p3: "pcircuit 2 (two_port_class ?x3) = Inr (two_port_decorated ?x3)"
    by (rule two_port_pcircuit) simp
  have d1: "distinct (map fst (cls_dict (two_port_class ?x1)))"
    and d2: "distinct (map fst (cls_dict (two_port_class ?x2)))"
    and d3: "distinct (map fst (cls_dict (two_port_class ?x3)))"
    by (simp_all add: two_port_class_def)
  have a1: "map_of (cls_dict (two_port_class ?x1)) ''h'' = Some (ArrV (NDArray [2] [1, 1]))"
    and a2: "map int (nd_shape (NDArray [2] [1, 1])) \<noteq> [2, 1]"
    by (simp_all add: two_port_class_def)
  have b1: "supplied_ok (two_port_class ?x2) ''h'' [2, 1]"
    and b2: "map_of (cls_dict (two_port_class ?x2)) ''J'' = Some (ArrV (np_zeros [2, 3]))"
    and b3: "map int (nd_shape (np_zeros [2, 3])) \<noteq> [2, 2]"
    by (simp_all add: two_port_class_def supplied_ok_def np_zeros_def)
  have c1: "supplied_ok (two_port_class ?x3) ''h'' [2, 1]"
    and c2: "supplied_ok (two_port_class ?x3) ''J'' [2, 2]"
    by (simp_all add: two_port_class_def supplied_ok_def)
  have A: "pc_new (two_port_decorated ?x1) = Inl (ShapeMismatch ''h'' [2, 1] [2])"
    using shapes_checked_at_construction [OF p1 d1, where a = "NDArray [2] [1, 1]"] a1 a2
    by simp
  have B: "pc_new (two_port_decorated ?x2) = Inl (ShapeMismatch ''J'' [2, 2] [2, 3])"
    using shapes_checked_at_construction [OF p2 d2, where b = "np_zeros [2, 3]"] b1 b2 b3
    by (simp add: np_zeros_def)
  have C: "\<exists>inst. pc_new (two_port_decorated ?x3) = Inr inst
         \<and> map_of inst ''h'' = Some (ArrV (NDArray [2, 1] [1, 1]))
         \<and> map_of inst ''J'' = Some (ArrV (np_zeros [2, 2]))"
    using shapes_checked_at_construction [OF p3 d3] c1 c2
    by (simp add: two_port_class_def)
  from p1 d1 a1 a2 A p2 d2 b1 b2 b3 B p3 d3 c1 c2 C show ?thesis by blast
qed

text \<open>
  C7 as stated fails: a supplied \<^verbatim>\<open>h\<close> of length 2 and shape \<open>(2,)\<close>, together with a
  2 by 2 \<^verbatim>\<open>J\<close>, on a class with two ports, is rejected with the shape error.
\<close>

theorem flat_h_rejected:
  "pcircuit 2 \<lparr>cls_name = ''G'',
       cls_dict = [(''a'', PortV (Port ''a'' None)), (''b'', PortV (Port ''b'' None)),
                   (''h'', ArrV (NDArray [2] [1, 1])), (''J'', ArrV (np_zeros [2, 2]))]\<rparr>
     = Inr \<lparr>pc_cls = \<lparr>cls_name = ''G'',
                cls_dict = [(''a'', PortV (Port ''a'' None)), (''b'', PortV (Port ''b'' None)),
                   (''h'', ArrV (NDArray [2] [1, 1])), (''J'', ArrV (np_zeros [2, 2]))]\<rparr>,
            pc_n_pbits = 2,
            pc_port_attrs = [(''a'', Port ''a'' None), (''b'', Port ''b'' None)],
            pc_port_indices = [(''a'', 0), (''b'', 1)]\<rparr>
   \<and> pc_new \<lparr>pc_cls = \<lparr>cls_name = ''G'',
                cls_dict = [(''a'', PortV (Port ''a'' None)), (''b'', PortV (Port ''b'' None)),
                   (''h'', ArrV (NDArray [2] [1, 1])), (''J'', ArrV (np_zeros [2, 2]))]\<rparr>,
            pc_n_pbits = 2,
            pc_port_attrs = [(''a'', Port ''a'' None), (''b'', Port ''b'' None)],
            pc_port_indices = [(''a'', 0), (''b'', 1)]\<rparr>
     = Inl (ShapeMismatch ''h'' [2, 1] [2])
   \<and> length (nd_data (NDArray [2] [1, 1])) = 2
   \<and> nd_shape (np_zeros [2, 2]) = [2, 2]"
  by (simp add: pcircuit_def Let_def pc_new_def check_shape_def np_zeros_def
      upt_rec [of 0] upt_rec [of 1] upt_rec [of "Suc 0"] upt_rec [of 2])

text \<open>
  C8. When the number of \<^verbatim>\<open>Port\<close> attributes of the class differs from \<open>n\<close>, the
  decorator fails at once with the port-count error, which carries the class name, \<open>n\<close>,
  the number found and the names found; when the decorator and \<^verbatim>\<open>__new__\<close> succeed, the
  instance has, under the attribute name of the \<open>k\<close>-th declared port, a port with that
  port's name and index \<open>k\<close>.
\<close>

theorem port_count_and_indices:
  "(int (length (port_attrs (cls_dict cls))) \<noteq> n \<longrightarrow>
      pcircuit n cls
        = Inl (PortCountMismatch (cls_name cls) n (length (port_attrs (cls_dict cls)))
                 (map fst (port_attrs (cls_dict cls)))))
   \<and> (distinct (map fst (cls_dict cls)) \<and> pcircuit n cls = Inr dc \<and> pc_new dc = Inr inst
        \<and> k < length (port_attrs (cls_dict cls)) \<longrightarrow>
        int (length (port_attrs (cls_dict cls))) = n \<and>
        map_of inst (fst (port_attrs (cls_dict cls) ! k))
          = Some (PortV (Port (port_name (snd (port_attrs (cls_dict cls) ! k))) (Some k))))"
proof (intro conjI impI)
  assume "int (length (port_attrs (cls_dict cls))) \<noteq> n"
  then show "pcircuit n cls
        = Inl (PortCountMismatch (cls_name cls) n (length (port_attrs (cls_dict cls)))
                 (map fst (port_attrs (cls_dict cls))))"
    by (simp add: pcircuit_def Let_def)
next
  let ?pa = "port_attrs (cls_dict cls)"
  assume a: "distinct (map fst (cls_dict cls)) \<and> pcircuit n cls = Inr dc \<and> pc_new dc = Inr inst
        \<and> k < length ?pa"
  then have dc: "int (length ?pa) = n" "pc_port_attrs dc = ?pa"
      "pc_port_indices dc = zip (map fst ?pa) [0..<length ?pa]"
    by (auto simp: pcircuit_def Let_def split: if_splits)
  show "int (length ?pa) = n" by (rule dc)
  have dist: "distinct (map fst ?pa)"
    using a by (simp add: port_attrs_distinct)
  from a obtain inst0 where inst: "inst = set_ports (pc_port_indices dc) ?pa inst0"
    by (auto simp: pc_new_def Let_def dc split: sum.splits)
  have mem: "(fst (?pa ! k), snd (?pa ! k)) \<in> set ?pa"
    using a by simp
  show "map_of inst (fst (?pa ! k)) = Some (PortV (Port (port_name (snd (?pa ! k))) (Some k)))"
    using set_ports_port [OF dist mem] port_indices_nth [OF dist] a
    by (simp add: inst dc)
qed

theorem port_count_and_indices_witness:
  "int (length (port_attrs (cls_dict
        \<lparr>cls_name = ''AND'', cls_dict = [(''input1'', PortV (Port ''input1'' None))]\<rparr>))) \<noteq> 2
   \<and> pcircuit 2 \<lparr>cls_name = ''AND'', cls_dict = [(''input1'', PortV (Port ''input1'' None))]\<rparr>
       = Inl (PortCountMismatch ''AND'' 2 1 [''input1''])
   \<and> distinct (map fst (cls_dict
        \<lparr>cls_name = ''NOT'',
         cls_dict = [(''input1'', PortV (Port ''in'' None)), (''doc'', OtherV),
                     (''output'', PortV (Port ''out'' None))]\<rparr>))
   \<and> pcircuit 2 \<lparr>cls_name = ''NOT'',
         cls_dict = [(''input1'', PortV (Port ''in'' None)), (''doc'', OtherV),
                     (''output'', PortV (Port ''out'' None))]\<rparr>
       = Inr \<lparr>pc_cls = \<lparr>cls_name = ''NOT'',
                  cls_dict = [(''input1'', PortV (Port ''in'' None)), (''doc'', OtherV),
                              (''output'', PortV (Port ''out'' None))]\<rparr>,
              pc_n_pbits = 2,
              pc_port_attrs = [(''input1'', Port ''in'' None), (''output'', Port ''out'' None)],
              pc_port_indices = [(''input1'', 0), (''output'', 1)]\<rparr>
   \<and> pc_new \<lparr>pc_cls = \<lparr>cls_name = ''NOT'',
                  cls_dict = [(''input1'', PortV (Port ''in'' None)), (''doc'', OtherV),
                              (''output'', PortV (Port ''out'' None))]\<rparr>,
              pc_n_pbits = 2,
              pc_port_attrs = [(''input1'', Port ''in'' None), (''output'', Port ''out'' None)],
              pc_port_indices = [(''input1'', 0), (''output'', 1)]\<rparr>
       = Inr [(''n_pbits'', IntV 2), (''h'', ArrV (np_zeros [2, 1])),
              (''J'', ArrV (np_zeros [2, 2])), (''_connections'', DictV []),
              (''input1'', PortV (Port ''in'' (Some 0))),
              (''output'', PortV (Port ''out'' (Some 1)))]
   \<and> map_of [(''n_pbits'', IntV 2), (''h'', ArrV (np_zeros [2, 1])),
              (''J'', ArrV (np_zeros [2, 2])), (''_connections'', DictV []),
              (''input1'', PortV (Port ''in'' (Some 0))),
              (''output'', PortV (Port ''out'' (Some 1)))] ''output''
       = Some (PortV (Port ''out'' (Some 1)))"
proof -
  let ?c1 = "\<lparr>cls_name = ''AND'', cls_dict = [(''input1'', PortV (Port ''input1'' None))]\<rparr>"
  let ?c2 = "\<lparr>cls_name = ''NOT'',
         cls_dict = [(''input1'', PortV (Port ''in'' None)), (''doc'', OtherV),
                     (''output'', PortV (Port ''out'' None))]\<rparr>"
  let ?dc = "\<lparr>pc_cls = ?c2, pc_n_pbits = 2,
              pc_port_attrs = [(''input1'', Port ''in'' None), (''output'', Port ''out'' None)],
              pc_port_indices = [(''input1'', 0), (''output'', 1)]\<rparr>"
  let ?inst = "[(''n_pbits'', IntV 2), (''h'', ArrV (np_zeros [2, 1])),
              (''J'', ArrV (np_zeros [2, 2])), (''_connections'', DictV []),
              (''input1'', PortV (Port ''in'' (Some 0))),
              (''output'', PortV (Port ''out'' (Some 1)))]"
  have h1: "int (length (port_attrs (cls_dict ?c1))) \<noteq> 2" by simp
  have h2: "distinct (map fst (cls_dict ?c2))" by simp
  have h3: "pcircuit 2 ?c2 = Inr ?dc"
    by (simp add: pcircuit_def Let_def upt_rec [of 0] upt_rec [of 1] upt_rec [of "Suc 0"] upt_rec [of 2])
  have h4: "pc_new ?dc = Inr ?inst"
    by (simp add: pc_new_def Let_def check_shape_def getattr_default_def set_ports_def)
  have h5: "1 < length (port_attrs (cls_dict ?c2))" by simp
  from port_count_and_indices [of ?c1 2] h1
  have a: "pcircuit 2 ?c1 = Inl (PortCountMismatch ''AND'' 2 1 [''input1''])"
    by simp
  from port_count_and_indices [of ?c2 2 ?dc ?inst 1] h2 h3 h4 h5
  have b: "map_of ?inst ''output'' = Some (PortV (Port ''out'' (Some 1)))"
    by simp
  from h1 a h2 h3 h4 b show ?thesis by blast
qed




text \<open>
  C10. The decorator creates one context; two instances of the decorated class, made one
  after the other by initialisers that leave \<^verbatim>\<open>_context\<close> in place, hold that same
  context; after the second construction it is what registering the circuits of the
  first instance and then those of the second makes of the new context, and
  \<^verbatim>\<open>synthesize\<close> on either instance, with a valid format, is
  \<^verbatim>\<open>ModuleContext.synthesize\<close> of this accumulated context.
\<close>

theorem shared_context:
  assumes dec: "module_decorator new_context original_init hp = (mc, hp1)"
    and s1: "self1 = mod_original_init mc args1 [(''_context'', CtxV (mod_context mc))]"
    and s2: "self2 = mod_original_init mc args2 [(''_context'', CtxV (mod_context mc))]"
    and k1: "map_of self1 ''_context'' = Some (CtxV (mod_context mc))"
    and k2: "map_of self2 ''_context'' = Some (CtxV (mod_context mc))"
  shows "hp1 ! mod_context mc = new_context \<and>
     (\<exists>hp2 hp3.
        new_instance register_instance mc args1 hp1 = Inr (self1, hp2) \<and>
        new_instance register_instance mc args2 hp2 = Inr (self2, hp3) \<and>
        hp2 ! mod_context mc
          = registrations register_instance (circuits_of self1) new_context \<and>
        hp3 ! mod_context mc
          = registrations register_instance (circuits_of self1 @ circuits_of self2)
              new_context \<and>
        (format \<in> set [''sparse'', ''dense''] \<longrightarrow>
           synthesize f hp3 self1 format = Inr (f (hp3 ! mod_context mc) format) \<and>
           synthesize f hp3 self2 format = Inr (f (hp3 ! mod_context mc) format)))"
proof -
  let ?a = "mod_context mc"
  let ?reg = "registrations register_instance"
  from dec have a: "?a = length hp" and hp1: "hp1 = hp @ [new_context]"
    by (auto simp: module_decorator_def)
  have fresh: "hp1 ! ?a = new_context"
    by (simp add: a hp1)
  have l1: "?a < length hp1" by (simp add: a hp1)
  let ?hp2 = "hp1[?a := ?reg (circuits_of self1) (hp1 ! ?a)]"
  have n1: "new_instance register_instance mc args1 hp1 = Inr (self1, ?hp2)"
    by (rule new_instance_ok [OF s1 k1 l1])
  have l2: "?a < length ?hp2" using l1 by simp
  let ?hp3 = "?hp2[?a := ?reg (circuits_of self2) (?hp2 ! ?a)]"
  have n2: "new_instance register_instance mc args2 ?hp2 = Inr (self2, ?hp3)"
    by (rule new_instance_ok [OF s2 k2 l2])
  have r2: "?hp2 ! ?a = ?reg (circuits_of self1) new_context"
    using l1 by (simp add: fresh)
  have r3: "?hp3 ! ?a = ?reg (circuits_of self1 @ circuits_of self2) new_context"
    using l1 by (simp add: fresh registrations_append)
  have l3: "?a < length ?hp3" using l1 by simp
  have syn: "format \<in> set [''sparse'', ''dense''] \<longrightarrow>
           synthesize f ?hp3 self1 format = Inr (f (?hp3 ! ?a) format) \<and>
           synthesize f ?hp3 self2 format = Inr (f (?hp3 ! ?a) format)"
    using k1 k2 l3 unfolding synthesize_def by simp
  have "\<exists>hp2 hp3.
        new_instance register_instance mc args1 hp1 = Inr (self1, hp2) \<and>
        new_instance register_instance mc args2 hp2 = Inr (self2, hp3) \<and>
        hp2 ! ?a = ?reg (circuits_of self1) new_context \<and>
        hp3 ! ?a = ?reg (circuits_of self1 @ circuits_of self2) new_context \<and>
        (format \<in> set [''sparse'', ''dense''] \<longrightarrow>
           synthesize f hp3 self1 format = Inr (f (hp3 ! ?a) format) \<and>
           synthesize f hp3 self2 format = Inr (f (hp3 ! ?a) format))"
    by (rule exI [of _ ?hp2], rule exI [of _ ?hp3]) (intro conjI n1 n2 r2 r3 syn)
  with fresh show ?thesis by (rule conjI)
qed

theorem shared_context_witness:
  "module_decorator ([] :: pyval list) gate_init []
     = (\<lparr>mod_context = 0, mod_original_init = gate_init\<rparr>, [[]])
   \<and> [(''_context'', CtxV 0), (''gate'', gate 2)]
       = mod_original_init \<lparr>mod_context = 0, mod_original_init = gate_init\<rparr> 2
           [(''_context'', CtxV (mod_context \<lparr>mod_context = 0, mod_original_init = gate_init\<rparr>))]
   \<and> [(''_context'', CtxV 0), (''gate'', gate 3)]
       = mod_original_init \<lparr>mod_context = 0, mod_original_init = gate_init\<rparr> 3
           [(''_context'', CtxV (mod_context \<lparr>mod_context = 0, mod_original_init = gate_init\<rparr>))]
   \<and> map_of [(''_context'', CtxV 0), (''gate'', gate 2)] ''_context''
       = Some (CtxV (mod_context \<lparr>mod_context = 0, mod_original_init = gate_init\<rparr>))
   \<and> map_of [(''_context'', CtxV 0), (''gate'', gate 3)] ''_context''
       = Some (CtxV (mod_context \<lparr>mod_context = 0, mod_original_init = gate_init\<rparr>))
   \<and> ''dense'' \<in> set [''sparse'', ''dense'']
   \<and> (\<exists>hp2 hp3.
        new_instance record_call \<lparr>mod_context = 0, mod_original_init = gate_init\<rparr> 2 [[]]
          = Inr ([(''_context'', CtxV 0), (''gate'', gate 2)], hp2) \<and>
        new_instance record_call \<lparr>mod_context = 0, mod_original_init = gate_init\<rparr> 3 hp2
          = Inr ([(''_context'', CtxV 0), (''gate'', gate 3)], hp3) \<and>
        hp2 ! 0 = [gate 2] \<and>
        hp3 ! 0 = [gate 2, gate 3] \<and>
        synthesize (\<lambda>ctx format. ctx) hp3
            [(''_context'', CtxV 0), (''gate'', gate 2)] ''dense''
          = Inr [gate 2, gate 3])"
proof -
  let ?mc = "\<lparr>mod_context = 0, mod_original_init = gate_init\<rparr>"
  let ?s1 = "[(''_context'', CtxV 0), (''gate'', gate 2)]"
  let ?s2 = "[(''_context'', CtxV 0), (''gate'', gate 3)]"
  let ?f = "\<lambda>(ctx :: pyval list) (format :: string). ctx"
  have dec: "module_decorator ([] :: pyval list) gate_init [] = (?mc, [[]])"
    by (simp add: module_decorator_def)
  have s1: "?s1 = mod_original_init ?mc 2 [(''_context'', CtxV (mod_context ?mc))]"
    by (simp add: gate_init_def)
  have s2: "?s2 = mod_original_init ?mc 3 [(''_context'', CtxV (mod_context ?mc))]"
    by (simp add: gate_init_def)
  have k1: "map_of ?s1 ''_context'' = Some (CtxV (mod_context ?mc))" by simp
  have k2: "map_of ?s2 ''_context'' = Some (CtxV (mod_context ?mc))" by simp
  have fmt: "''dense'' \<in> set [''sparse'', ''dense'']" by simp
  have c1: "circuits_of ?s1 = [gate 2]" and c2: "circuits_of ?s2 = [gate 3]"
    by (simp_all add: circuits_of_def gate_def)
  from shared_context [OF dec s1 s2 k1 k2, where format = "''dense''" and f = ?f
      and register_instance = record_call]
  obtain hp2 hp3 where
    n1: "new_instance record_call ?mc 2 [[]] = Inr (?s1, hp2)"
    and n2: "new_instance record_call ?mc 3 hp2 = Inr (?s2, hp3)"
    and r2: "hp2 ! mod_context ?mc = registrations record_call (circuits_of ?s1) []"
    and r3: "hp3 ! mod_context ?mc
        = registrations record_call (circuits_of ?s1 @ circuits_of ?s2) []"
    and sy: "''dense'' \<in> set [''sparse'', ''dense''] \<longrightarrow>
           synthesize ?f hp3 ?s1 ''dense'' = Inr (?f (hp3 ! mod_context ?mc) ''dense'') \<and>
           synthesize ?f hp3 ?s2 ''dense'' = Inr (?f (hp3 ! mod_context ?mc) ''dense'')"
    by blast
  have r2': "hp2 ! 0 = [gate 2]"
    using r2 by (simp add: c1 registrations_record_call)
  have r3': "hp3 ! 0 = [gate 2, gate 3]"
    using r3 by (simp add: c1 c2 registrations_record_call)
  from sy fmt have "synthesize ?f hp3 ?s1 ''dense'' = Inr (hp3 ! 0)"
    by simp
  then have sy': "synthesize ?f hp3 ?s1 ''dense'' = Inr [gate 2, gate 3]"
    by (simp only: r3')
  have e: "\<exists>hp2 hp3.
        new_instance record_call ?mc 2 [[]] = Inr (?s1, hp2) \<and>
        new_instance record_call ?mc 3 hp2 = Inr (?s2, hp3) \<and>
        hp2 ! 0 = [gate 2] \<and>
        hp3 ! 0 = [gate 2, gate 3] \<and>
        synthesize ?f hp3 ?s1 ''dense'' = Inr [gate 2, gate 3]"
    by (rule exI [of _ hp2], rule exI [of _ hp3]) (intro conjI n1 n2 r2' r3' sy')
  show ?thesis
    using dec s1 s2 k1 k2 fmt e by (intro conjI)
qed

end
